theory Spec2Isabelle
  imports Main "HOL-Library.AList" "HOL-Library.Sublist"
begin

section \<open>Strings and paths as Python has them\<close>

text \<open>
  A Python \<open>str\<close> and a \<open>bytes\<close> value are both modelled as a list of characters.
  Only the ASCII range is modelled: \<open>str.lower\<close> maps \<open>A..Z\<close> to \<open>a..z\<close> and leaves
  every other character alone.
\<close>

type_synonym bytes = string

definition lower_char :: "char \<Rightarrow> char" where
  "lower_char c =
     (case map_of (zip ''ABCDEFGHIJKLMNOPQRSTUVWXYZ'' ''abcdefghijklmnopqrstuvwxyz'') c of
        Some d \<Rightarrow> d
      | None \<Rightarrow> c)"

definition lower :: "string \<Rightarrow> string" where
  "lower s = map lower_char s"

definition endswith :: "string \<Rightarrow> string \<Rightarrow> bool" where
  "endswith s suf \<longleftrightarrow> length suf \<le> length s \<and> drop (length s - length suf) s = suf"

definition startswith :: "string \<Rightarrow> string \<Rightarrow> bool" where
  "startswith s pre \<longleftrightarrow> take (length pre) s = pre"

text \<open>\<open>str(n)\<close> of a Python integer, as the f-strings of the upload handler use it.\<close>

definition digit_char :: "nat \<Rightarrow> char" where
  "digit_char d = ''0123456789'' ! d"

fun str_nat :: "nat \<Rightarrow> string" where
  "str_nat n = (if n < 10 then [digit_char n] else str_nat (n div 10) @ [digit_char (n mod 10)])"

declare str_nat.simps [simp del]

definition str_int :: "int \<Rightarrow> string" where
  "str_int i = (if i < 0 then CHR ''-'' # str_nat (nat (- i)) else str_nat (nat i))"

text \<open>
  \<open>int(x)\<close> of a Python string, base 10: surrounding whitespace is stripped, one sign is
  allowed, and the digits may be grouped by single underscores. Anything else raises
  \<open>ValueError\<close>. Digits and whitespace outside ASCII are not modelled.
\<close>

definition is_digit :: "char \<Rightarrow> bool" where
  "is_digit c \<longleftrightarrow> c \<in> set ''0123456789''"

definition digit_val :: "char \<Rightarrow> nat" where
  "digit_val c = of_char c - 48"

definition nat_of_digits :: "string \<Rightarrow> nat" where
  "nat_of_digits s = foldl (\<lambda>a c. 10 * a + digit_val c) 0 s"

definition is_space :: "char \<Rightarrow> bool" where
  "is_space c \<longleftrightarrow> (let n = (of_char c :: nat) in (9 \<le> n \<and> n \<le> 13) \<or> (28 \<le> n \<and> n \<le> 32))"

definition strip :: "string \<Rightarrow> string" where
  "strip s = rev (dropWhile is_space (rev (dropWhile is_space s)))"

fun digits_ok :: "string \<Rightarrow> bool" where
  "digits_ok [] = False"
| "digits_ok [c] = is_digit c"
| "digits_ok (c # d # cs) =
     (is_digit c \<and> (if d = CHR ''_'' then digits_ok cs else digits_ok (d # cs)))"

text \<open>\<open>str.split(sep)\<close> with a one-character separator, and \<open>str.split()\<close> on
  whitespace.\<close>

fun split_on :: "char \<Rightarrow> string \<Rightarrow> string list" where
  "split_on sep [] = [[]]"
| "split_on sep (c # cs) =
     (if c = sep then [] # split_on sep cs
      else (case split_on sep cs of w # ws \<Rightarrow> (c # w) # ws | [] \<Rightarrow> [[c]]))"

fun split_ws_from :: "string \<Rightarrow> string \<Rightarrow> string list" where
  "split_ws_from w [] = (if w = [] then [] else [w])"
| "split_ws_from w (c # cs) =
     (if is_space c then (if w = [] then split_ws_from [] cs else w # split_ws_from [] cs)
      else split_ws_from (w @ [c]) cs)"

definition split_ws :: "string \<Rightarrow> string list" where
  "split_ws s = split_ws_from [] s"

text \<open>\<open>sep.join(xs)\<close>.\<close>

fun join_with :: "string \<Rightarrow> string list \<Rightarrow> string" where
  "join_with sep [] = []"
| "join_with sep [x] = x"
| "join_with sep (x # y # ys) = x @ sep @ join_with sep (y # ys)"

text \<open>\<open>os.path.split\<close>, \<open>os.path.dirname\<close>, \<open>os.path.basename\<close> and \<open>os.path.join\<close>
  of \<open>posixpath\<close>.\<close>

definition rstrip_slash :: "string \<Rightarrow> string" where
  "rstrip_slash s = rev (dropWhile (\<lambda>c. c = CHR ''/'') (rev s))"

definition path_split :: "string \<Rightarrow> string \<times> string" where
  "path_split p =
     (let tail = rev (takeWhile (\<lambda>c. c \<noteq> CHR ''/'') (rev p));
          head = take (length p - length tail) p
      in (if head \<noteq> [] \<and> \<not> list_all (\<lambda>c. c = CHR ''/'') head then rstrip_slash head else head,
          tail))"

definition dirname :: "string \<Rightarrow> string" where
  "dirname p = fst (path_split p)"

definition basename :: "string \<Rightarrow> string" where
  "basename p = snd (path_split p)"

definition path_join :: "string \<Rightarrow> string \<Rightarrow> string" where
  "path_join a b =
     (if startswith b ''/'' then b
      else if a = [] \<or> endswith a ''/'' then a @ b
      else a @ ''/'' @ b)"

text \<open>\<open>os.path.normpath\<close> and \<open>os.path.abspath\<close> of \<open>posixpath\<close>; the working
  directory is a parameter.\<close>

fun norm_comps :: "bool \<Rightarrow> string list \<Rightarrow> string list \<Rightarrow> string list" where
  "norm_comps initial_slashes [] new_comps = new_comps"
| "norm_comps initial_slashes (seg # comps) new_comps =
     (if seg = [] \<or> seg = ''.'' then norm_comps initial_slashes comps new_comps
      else if seg \<noteq> ''..'' \<or> (\<not> initial_slashes \<and> new_comps = [])
                \<or> (new_comps \<noteq> [] \<and> last new_comps = ''..'')
        then norm_comps initial_slashes comps (new_comps @ [seg])
      else if new_comps \<noteq> [] then norm_comps initial_slashes comps (butlast new_comps)
      else norm_comps initial_slashes comps new_comps)"

definition normpath :: "string \<Rightarrow> string" where
  "normpath p =
     (if p = [] then ''.''
      else
        (let initial_slashes =
               (if startswith p ''/''
                then (if startswith p ''//'' \<and> \<not> startswith p ''///'' then 2 else 1)
                else (0 :: nat));
             comps = norm_comps (initial_slashes \<noteq> 0) (split_on CHR ''/'' p) [];
             q = replicate initial_slashes CHR ''/'' @ join_with ''/'' comps
         in if q = [] then ''.'' else q))"

definition abspath :: "string \<Rightarrow> string \<Rightarrow> string" where
  "abspath cwd p = normpath (if startswith p ''/'' then p else path_join cwd p)"

text \<open>\<open>str(pathlib.Path(a) / b)\<close> for a pure POSIX path: empty and \<open>.\<close> segments are
  dropped, an absolute right operand replaces the left one.\<close>

definition pathlib_root :: "string \<Rightarrow> string" where
  "pathlib_root p =
     (if startswith p ''//'' \<and> \<not> startswith p ''///'' then ''//''
      else if startswith p ''/'' then ''/'' else [])"

definition pathlib_parts :: "string \<Rightarrow> string list" where
  "pathlib_parts p = filter (\<lambda>c. c \<noteq> [] \<and> c \<noteq> ''.'') (split_on CHR ''/'' p)"

definition pathlib_str :: "string \<Rightarrow> string list \<Rightarrow> string" where
  "pathlib_str root parts = (if root = [] \<and> parts = [] then ''.'' else root @ join_with ''/'' parts)"

definition pathlib_div :: "string \<Rightarrow> string \<Rightarrow> string" where
  "pathlib_div a b =
     (if startswith b ''/'' then pathlib_str (pathlib_root b) (pathlib_parts b)
      else pathlib_str (pathlib_root a) (pathlib_parts a @ pathlib_parts b))"

section \<open>Exceptions, JSON values and responses\<close>

datatype exn =
    HTTPException nat string
  | FileNotFoundError
  | NotADirectoryError
  | IsADirectoryError
  | FileExistsError
  | ValueError
  | IndexError
  | JSONDecodeError
  | ExternalError string

definition py_int :: "string \<Rightarrow> exn + int" where
  "py_int x =
     (let s = strip x;
          negative = (s \<noteq> [] \<and> hd s = CHR ''-'');
          body = (if s \<noteq> [] \<and> (hd s = CHR ''-'' \<or> hd s = CHR ''+'') then tl s else s)
      in if digits_ok body
         then Inr ((if negative then - 1 else 1) * int (nat_of_digits (filter is_digit body)))
         else Inl ValueError)"

text \<open>The comprehension \<open>[int(x) for x in xs]\<close>: the first failing element raises.\<close>

fun map_int :: "string list \<Rightarrow> exn + int list" where
  "map_int [] = Inr []"
| "map_int (x # xs) =
     (case py_int x of
        Inl e \<Rightarrow> Inl e
      | Inr v \<Rightarrow> (case map_int xs of Inl e \<Rightarrow> Inl e | Inr vs \<Rightarrow> Inr (v # vs)))"

datatype json =
    JNull
  | JBool bool
  | JInt int
  | JRound2 int int  \<comment> \<open>the float \<open>round(a / b, 2)\<close>, kept symbolic\<close>
  | JStr string
  | JList "json list"
  | JDict "(string \<times> json) list"

datatype response =
    JSONResponse json nat
  | PlainTextResponse string nat
  | Response bytes string nat

definition status_code :: "response \<Rightarrow> nat" where
  "status_code r = (case r of JSONResponse _ c \<Rightarrow> c | PlainTextResponse _ c \<Rightarrow> c | Response _ _ c \<Rightarrow> c)"

text \<open>
  What the client sees of a handler's outcome. The handlers run under FastAPI, which
  answers a raised \<open>HTTPException\<close> with its own status code and any other exception
  that leaves the handler with 500 (Internal Server Error).
\<close>

definition http_status :: "exn + response \<Rightarrow> nat" where
  "http_status out =
     (case out of
        Inr r \<Rightarrow> status_code r
      | Inl (HTTPException c _) \<Rightarrow> c
      | Inl _ \<Rightarrow> 500)"

section \<open>The file system\<close>

text \<open>
  The file system is a table from path strings to nodes, in the order in which a
  directory listing reports them. A file is identified with the path string under which
  the program names it: the model has no symbolic or hard links, and a state lists every
  path once. Permissions, disk-full and other I/O failures are not modelled; an operation
  fails exactly when the path, or its parent directory, is missing or of the wrong kind.
\<close>

datatype node = File bytes | Dir

type_synonym filesystem = "(string \<times> node) list"

definition path_exists :: "filesystem \<Rightarrow> string \<Rightarrow> bool" where
  "path_exists fs p \<longleftrightarrow> map_of fs p \<noteq> None"

definition isdir :: "filesystem \<Rightarrow> string \<Rightarrow> bool" where
  "isdir fs p \<longleftrightarrow> map_of fs p = Some Dir"

text \<open>\<open>open(p, "wb")\<close>: creates or truncates the file.\<close>

definition open_wb :: "filesystem \<Rightarrow> string \<Rightarrow> exn + filesystem" where
  "open_wb fs p =
     (case map_of fs (dirname p) of
        None \<Rightarrow> Inl FileNotFoundError
      | Some (File _) \<Rightarrow> Inl NotADirectoryError
      | Some Dir \<Rightarrow>
          (case map_of fs p of
             Some Dir \<Rightarrow> Inl IsADirectoryError
           | _ \<Rightarrow> Inr (AList.update p (File []) fs)))"

text \<open>\<open>buffer.write(data)\<close> on a file open for writing at \<open>p\<close>: the data is appended.
  A handle whose path has been unlinked writes to a file no path names any more.\<close>

definition fwrite :: "filesystem \<Rightarrow> string \<Rightarrow> bytes \<Rightarrow> filesystem" where
  "fwrite fs p data =
     (case map_of fs p of
        Some (File d) \<Rightarrow> AList.update p (File (d @ data)) fs
      | _ \<Rightarrow> fs)"

text \<open>\<open>open(p, "rb").read()\<close>.\<close>

definition read_file :: "filesystem \<Rightarrow> string \<Rightarrow> exn + bytes" where
  "read_file fs p =
     (case map_of fs p of
        None \<Rightarrow> Inl FileNotFoundError
      | Some Dir \<Rightarrow> Inl IsADirectoryError
      | Some (File d) \<Rightarrow> Inr d)"

text \<open>\<open>os.remove(p)\<close>.\<close>

definition os_remove :: "filesystem \<Rightarrow> string \<Rightarrow> exn + filesystem" where
  "os_remove fs p =
     (case map_of fs p of
        None \<Rightarrow> Inl FileNotFoundError
      | Some Dir \<Rightarrow> Inl IsADirectoryError
      | Some (File _) \<Rightarrow> Inr (AList.delete p fs))"

text \<open>\<open>os.mkdir(p)\<close>.\<close>

definition mkdir :: "filesystem \<Rightarrow> string \<Rightarrow> exn option \<times> filesystem" where
  "mkdir fs p =
     (if path_exists fs p then (Some FileExistsError, fs)
      else case map_of fs (dirname p) of
        None \<Rightarrow> (Some FileNotFoundError, fs)
      | Some (File _) \<Rightarrow> (Some NotADirectoryError, fs)
      | Some Dir \<Rightarrow> (None, AList.update p Dir fs))"

text \<open>
  \<open>os.makedirs(name)\<close> with \<open>exist_ok=False\<close>, after the standard library:
  \<^verbatim>\<open>
  head, tail = path.split(name)
  if not tail: head, tail = path.split(head)
  if head and tail and not path.exists(head):
      try: makedirs(head)
      except FileExistsError: pass
      if tail == curdir: return
  mkdir(name)
  \<close>
\<close>

definition split2 :: "string \<Rightarrow> string \<times> string" where
  "split2 name =
     (if snd (path_split name) = [] then path_split (fst (path_split name)) else path_split name)"

lemma length_rstrip_slash: "length (rstrip_slash s) \<le> length s"
  by (simp add: rstrip_slash_def length_dropWhile_le [of _ "rev s", simplified])

lemma length_path_split:
  "length (fst (path_split p)) + length (snd (path_split p)) \<le> length p"
proof -
  have "length (takeWhile (\<lambda>c. c \<noteq> CHR ''/'') (rev p)) \<le> length p"
    using length_takeWhile_le [of _ "rev p"] by simp
  moreover have "length (rstrip_slash h) \<le> length h" for h
    by (rule length_rstrip_slash)
  ultimately show ?thesis
    using length_rstrip_slash [of "take (length p - length (takeWhile (\<lambda>c. c \<noteq> CHR ''/'') (rev p))) p"]
    by (auto simp: path_split_def Let_def)
qed

lemma length_split2:
  assumes "snd (split2 name) \<noteq> []"
  shows "length (fst (split2 name)) < length name"
proof (cases "snd (path_split name) = []")
  case True
  then have eq: "split2 name = path_split (fst (path_split name))"
    by (simp add: split2_def)
  with assms have "length (fst (split2 name)) < length (fst (path_split name))"
    using length_path_split [of "fst (path_split name)"]
    by (cases "snd (path_split (fst (path_split name)))") auto
  then show ?thesis
    using length_path_split [of name] by simp
next
  case False
  then have eq: "split2 name = path_split name"
    by (simp add: split2_def)
  with assms show ?thesis
    using length_path_split [of name]
    by (cases "snd (path_split name)") auto
qed

function makedirs :: "filesystem \<Rightarrow> string \<Rightarrow> exn option \<times> filesystem" where
  "makedirs fs name =
     (if fst (split2 name) \<noteq> [] \<and> snd (split2 name) \<noteq> [] \<and> \<not> path_exists fs (fst (split2 name)) then
        (case makedirs fs (fst (split2 name)) of
           (Some e, fs') \<Rightarrow>
             if e = FileExistsError
             then (if snd (split2 name) = ''.'' then (None, fs') else mkdir fs' name)
             else (Some e, fs')
         | (None, fs') \<Rightarrow>
             if snd (split2 name) = ''.'' then (None, fs') else mkdir fs' name)
      else mkdir fs name)"
  by pat_completeness auto
termination
  by (relation "measure (\<lambda>(fs, name). length name)") (auto simp: length_split2)

declare makedirs.simps [simp del]

section \<open>Settings\<close>

text \<open>The class \<open>Settings\<close>; the defaults are those of the source.\<close>

record settings =
  SLIDE_DIR :: string
  IMPORT_DIR :: string
  TMP_DIR :: string
  DU_LOC :: string
  RM_LOC :: string
  SAVE :: bool
  COLORS :: "string list"

definition default_settings :: settings where
  "default_settings =
     \<lparr> SLIDE_DIR = ''/iv-store'', IMPORT_DIR = ''/iv-import'', TMP_DIR = ''/tmp'',
       DU_LOC = ''/usr/bin/du'', RM_LOC = ''/usr/bin/rm'', SAVE = False,
       COLORS = [''red'', ''green'', ''blue'', ''yellow'', ''magenta'', ''cyan'', ''white''] \<rparr>"

section \<open>The upload handler\<close>

text \<open>The path of the scratch file of chunk \<open>chunk\<close>: \<open>f"{settings.TMP_DIR}/{name}_{chunk}"\<close>.\<close>

definition chunk_path :: "settings \<Rightarrow> string \<Rightarrow> int \<Rightarrow> string" where
  "chunk_path st name chunk = TMP_DIR st @ ''/'' @ name @ ''_'' @ str_int chunk"

text \<open>The path of the final artifact: \<open>f"{settings.IMPORT_DIR}/public/{name}"\<close>.\<close>

definition import_path :: "settings \<Rightarrow> string \<Rightarrow> string" where
  "import_path st name = IMPORT_DIR st @ ''/public/'' @ name"

text \<open>
  The loop \<open>while chunk < total_chunks\<close> of the last chunk's branch: read the scratch
  file, append it to the artifact, remove the scratch file. An exception leaves the loop
  with the state reached so far.
\<close>

function concat_chunks :: "settings \<Rightarrow> string \<Rightarrow> int \<Rightarrow> int \<Rightarrow> filesystem \<Rightarrow> exn option \<times> filesystem" where
  "concat_chunks st name total_chunks chunk fs =
     (if chunk < total_chunks then
        (case read_file fs (chunk_path st name chunk) of
           Inl e \<Rightarrow> (Some e, fs)
         | Inr data \<Rightarrow>
             (let fs1 = fwrite fs (import_path st name) data in
              case os_remove fs1 (chunk_path st name chunk) of
                Inl e \<Rightarrow> (Some e, fs1)
              | Inr fs2 \<Rightarrow> concat_chunks st name total_chunks (chunk + 1) fs2))
      else (None, fs))"
  by pat_completeness auto
termination
  by (relation "measure (\<lambda>(st, name, total_chunks, chunk, fs). nat (total_chunks - chunk))") auto

declare concat_chunks.simps [simp del]

text \<open>The body of \<open>if isLast:\<close>.\<close>

definition complete_upload :: "settings \<Rightarrow> string \<Rightarrow> int \<Rightarrow> filesystem \<Rightarrow> (exn + response) \<times> filesystem" where
  "complete_upload st name total_chunks fs =
     (case (if \<not> path_exists fs (IMPORT_DIR st @ ''/public'')
            then makedirs fs (IMPORT_DIR st @ ''/public'') else (None, fs)) of
        (Some e, fs1) \<Rightarrow> (Inl e, fs1)
      | (None, fs1) \<Rightarrow>
          (case open_wb fs1 (import_path st name) of
             Inl e \<Rightarrow> (Inl e, fs1)
           | Inr fs2 \<Rightarrow>
               (case concat_chunks st name total_chunks 0 fs2 of
                  (Some e, fs3) \<Rightarrow> (Inl e, fs3)
                | (None, fs3) \<Rightarrow>
                    (Inr (JSONResponse (JDict [(''message'', JStr ''File Uploaded'')]) 200), fs3))))"

definition upload_file ::
  "settings \<Rightarrow> bytes \<Rightarrow> string \<Rightarrow> int \<Rightarrow> int \<Rightarrow> filesystem \<Rightarrow> (exn + response) \<times> filesystem" where
  "upload_file st file name chunk_number total_chunks fs =
     (if \<not> (endswith (lower name) ''.svs'' \<or> endswith (lower name) ''.tiff''
             \<or> endswith (lower name) ''.tif'')
      then (Inl (HTTPException 400
              ''Invalid file type. Only .svs, .tiff, and .tif files are allowed.''), fs)
      else
        (let isLast = (chunk_number + 1 = total_chunks);
             file_name = name @ ''_'' @ str_int chunk_number
         in case open_wb fs (TMP_DIR st @ ''/'' @ file_name) of
              Inl e \<Rightarrow> (Inl e, fs)
            | Inr fs1 \<Rightarrow>
                (let fs2 = fwrite fs1 (TMP_DIR st @ ''/'' @ file_name) file
                 in if isLast then complete_upload st name total_chunks fs2
                    else (Inr (JSONResponse (JDict [(''message'', JStr ''Chunk Uploaded'')]) 200),
                          fs2))))"

text \<open>The condition that lets a name pass the file-type check of \<open>upload_file\<close>.\<close>

definition allowed_file_type :: "string \<Rightarrow> bool" where
  "allowed_file_type name \<longleftrightarrow>
     endswith (lower name) ''.svs'' \<or> endswith (lower name) ''.tiff'' \<or> endswith (lower name) ''.tif''"

text \<open>The bytes of the file at a path; empty when the path names no file.\<close>

definition file_data :: "filesystem \<Rightarrow> string \<Rightarrow> bytes" where
  "file_data fs p = (case map_of fs p of Some (File d) \<Rightarrow> d | _ \<Rightarrow> [])"

section \<open>External collaborators\<close>

text \<open>
  The Pyramid Reader (\<open>OmeZarrConnector\<close>), the JSON codec, OpenCV and the programs run
  through \<open>subprocess.run\<close> are not part of the repository. They are parameters of the
  model: each may fail with an exception of its own. A connector handle carries what the
  handlers read from it.
\<close>

record connector =
  metadata :: json
  generate_dzi :: "int \<Rightarrow> exn + string"
  get_combined_image ::
    "int \<Rightarrow> int \<Rightarrow> int list \<Rightarrow> int list \<Rightarrow> string list \<Rightarrow> bool \<Rightarrow> int \<Rightarrow> int \<Rightarrow> exn + bytes"

record externals =
  getcwd :: string
  OmeZarrConnector :: "filesystem \<Rightarrow> string \<Rightarrow> exn + connector"
  json_load :: "bytes \<Rightarrow> exn + json"
  json_dump :: "json \<Rightarrow> bytes"
  cvtColor :: "bytes \<Rightarrow> exn + bytes"
  imencode :: "bytes \<Rightarrow> exn + bytes"
  subprocess_run :: "string list \<Rightarrow> filesystem \<Rightarrow> exn + (string \<times> filesystem)"

text \<open>The state of the machine: the file system and the command lines run so far.\<close>

record world =
  files :: filesystem
  procs :: "string list list"

definition run_process :: "externals \<Rightarrow> string list \<Rightarrow> world \<Rightarrow> (exn + string) \<times> world" where
  "run_process ex argv w =
     (case subprocess_run ex argv (files w) of
        Inl e \<Rightarrow> (Inl e, w\<lparr>procs := procs w @ [argv]\<rparr>)
      | Inr (out, fs') \<Rightarrow> (Inr out, \<lparr>files = fs', procs = procs w @ [argv]\<rparr>))"

section \<open>The catalog\<close>

text \<open>\<open>os.scandir\<close> and \<open>os.listdir\<close>: the immediate children of a directory, in the
  order of the table.\<close>

text \<open>The \<open>print\<close> calls of the handlers write to the log only and are left out.\<close>

record dir_entry =
  entry_name :: string
  entry_path :: string
  entry_is_dir :: bool

definition scandir :: "filesystem \<Rightarrow> string \<Rightarrow> exn + dir_entry list" where
  "scandir fs base_dir =
     (case map_of fs base_dir of
        None \<Rightarrow> Inl FileNotFoundError
      | Some (File _) \<Rightarrow> Inl NotADirectoryError
      | Some Dir \<Rightarrow>
          Inr [\<lparr>entry_name = basename k, entry_path = path_join base_dir (basename k),
                entry_is_dir = (n = Dir)\<rparr>.
               (k, n) \<leftarrow> fs, basename k \<noteq> [] \<and> k = path_join base_dir (basename k)])"

definition listdir :: "filesystem \<Rightarrow> string \<Rightarrow> exn + string list" where
  "listdir fs d =
     (case scandir fs d of Inl e \<Rightarrow> Inl e | Inr entries \<Rightarrow> Inr (map entry_name entries))"

text \<open>
  The loop of \<open>find_zarr_datasets\<close> over the entries, with \<open>zarr_datasets\<close> as the
  accumulator. Nothing in the loop catches an exception: the first entry whose connector
  or sidecar fails ends the scan.
\<close>

fun scan_entries :: "externals \<Rightarrow> filesystem \<Rightarrow> dir_entry list \<Rightarrow> json list \<Rightarrow> exn + json list" where
  "scan_entries ex fs [] zarr_datasets = Inr zarr_datasets"
| "scan_entries ex fs (entry # entries) zarr_datasets =
     (if entry_is_dir entry \<and> endswith (entry_name entry) ''.zarr'' then
        (case OmeZarrConnector ex fs (entry_path entry) of
           Inl e \<Rightarrow> Inl e
         | Inr ome_connection \<Rightarrow>
             (let dataset_info =
                    [(''name'', JStr (take (length (entry_name entry) - 5) (entry_name entry))),
                     (''details'', JDict []),
                     (''metadata'', metadata ome_connection)];
                  sample_json_path = path_join (entry_path entry) ''sample.json''
              in if path_exists fs sample_json_path then
                   (case read_file fs sample_json_path of
                      Inl e \<Rightarrow> Inl e
                    | Inr f \<Rightarrow>
                        (case json_load ex f of
                           Inl e \<Rightarrow> Inl e
                         | Inr details \<Rightarrow>
                             scan_entries ex fs entries
                               (zarr_datasets @ [JDict (AList.update ''details'' details dataset_info)])))
                 else scan_entries ex fs entries (zarr_datasets @ [JDict dataset_info])))
      else scan_entries ex fs entries zarr_datasets)"

definition find_zarr_datasets :: "externals \<Rightarrow> filesystem \<Rightarrow> string \<Rightarrow> exn + json list" where
  "find_zarr_datasets ex fs base_dir =
     (case scandir fs base_dir of
        Inl e \<Rightarrow> Inl e
      | Inr entries \<Rightarrow> scan_entries ex fs entries [])"

text \<open>
  \<open>samples\<close>: the scan runs inside \<open>try\<close>, and any exception replaces its result by the
  empty list. \<open>JSONResponse\<close> renders its content when it is built, outside the \<open>try\<close>;
  rendering can only fail on values the type \<open>json\<close> does not have (a non-finite float
  in a sidecar), so it is not modelled.
\<close>

definition samples :: "externals \<Rightarrow> settings \<Rightarrow> string \<Rightarrow> filesystem \<Rightarrow> response" where
  "samples ex st location fs =
     (let search_dir = path_join (SLIDE_DIR st) location;
          file_json = (case find_zarr_datasets ex fs (abspath (getcwd ex) search_dir) of
                         Inl e \<Rightarrow> []
                       | Inr datasets \<Rightarrow> datasets)
      in JSONResponse
           (JDict [(''samples'', JList file_json),
                   (''save'', JBool (SAVE st)),
                   (''colors'', JList (map JStr (COLORS st)))])
           200)"

section \<open>Tiles\<close>

definition get_tile ::
  "externals \<Rightarrow> settings \<Rightarrow> string \<Rightarrow> string \<Rightarrow> bool \<Rightarrow> string \<Rightarrow> string \<Rightarrow> string
    \<Rightarrow> int \<Rightarrow> int \<Rightarrow> int \<Rightarrow> filesystem \<Rightarrow> exn + response" where
  "get_tile ex st location chs rgb colors gains file level loc_x loc_y fs =
     (let path_to_zarr = path_join (path_join (SLIDE_DIR st) location) (file @ ''.zarr'')
      in case OmeZarrConnector ex fs path_to_zarr of
           Inl e \<Rightarrow> Inl e
         | Inr ome_connection \<Rightarrow>
      (case map_int (split_on CHR '';'' chs) of
           Inl e \<Rightarrow> Inl e
         | Inr channels \<Rightarrow>
      (let colors1 = split_on CHR '';'' colors
       in case map_int (split_on CHR '';'' gains) of
           Inl e \<Rightarrow> Inl e
         | Inr gains1 \<Rightarrow>
      (case get_combined_image ome_connection 0 level channels gains1 colors1 rgb loc_x loc_y of
           Inl e \<Rightarrow> Inl e
         | Inr tile \<Rightarrow>
      (case cvtColor ex tile of
           Inl e \<Rightarrow> Inl e
         | Inr tile_rgb \<Rightarrow>
      (case imencode ex tile_rgb of
           Inl e \<Rightarrow> Inl e
         | Inr img_bytes \<Rightarrow> Inr (Response img_bytes ''image/jpeg'' 200)))))))"

section \<open>Saving slide settings\<close>

definition save_slide_settings ::
  "externals \<Rightarrow> settings \<Rightarrow> string \<Rightarrow> bytes \<Rightarrow> filesystem \<Rightarrow> (exn + response) \<times> filesystem" where
  "save_slide_settings ex st file body fs =
     (if SAVE st then
        (case json_load ex body of
           Inl e \<Rightarrow>
             (if e = JSONDecodeError then (Inl (HTTPException 400 ''Invalid JSON''), fs)
              else (Inl e, fs))
         | Inr data \<Rightarrow>
             (let file_path = pathlib_div (pathlib_div (SLIDE_DIR st) file) ''sample.json''
              in case open_wb fs file_path of
                   Inl e \<Rightarrow> (Inl e, fs)
                 | Inr fs1 \<Rightarrow>
                     (Inr (PlainTextResponse ''OK'' 200), fwrite fs1 file_path (json_dump ex data))))
      else (Inr (PlainTextResponse ''SAVE BLOCKED'' 403), fs))"

section \<open>Sample statistics and deletion\<close>

text \<open>
  The loop \<open>for folder in folders: if not os.path.exists(...): folders.remove(folder)\<close>.
  A Python list iterator is an index into the list: it yields \<open>folders[i]\<close> and moves to
  \<open>i + 1\<close> until \<open>i\<close> reaches the current length, while the body shortens the list.
\<close>

function remove_invalid :: "filesystem \<Rightarrow> string \<Rightarrow> string list \<Rightarrow> nat \<Rightarrow> string list" where
  "remove_invalid fs files_path folders i =
     (if i < length folders then
        (let folder = folders ! i;
             sample_json_path = path_join (path_join files_path folder) ''sample.json''
         in if \<not> path_exists fs sample_json_path
            then remove_invalid fs files_path (remove1 folder folders) (i + 1)
            else remove_invalid fs files_path folders (i + 1))
      else folders)"
  by pat_completeness auto
termination
proof (relation "measure (\<lambda>(fs, files_path, folders, i). length folders - i)")
  fix fs :: filesystem and files_path :: string and folders :: "string list" and i :: nat
    and x xa
  assume "i < length folders" "x = folders ! i"
  then have "x \<in> set folders" by simp
  then have "length (remove1 x folders) = length folders - 1"
    by (simp add: length_remove1)
  with \<open>i < length folders\<close>
  show "((fs, files_path, remove1 x folders, i + 1), fs, files_path, folders, i)
          \<in> measure (\<lambda>(fs, files_path, folders, i). length folders - i)"
    by simp
qed auto

declare remove_invalid.simps [simp del]

definition sample_stats :: "externals \<Rightarrow> settings \<Rightarrow> world \<Rightarrow> (exn + response) \<times> world" where
  "sample_stats ex st w =
     (let files_path = path_join (SLIDE_DIR st) ''public''
      in if \<not> path_exists (files w) files_path then
           (Inr (JSONResponse (JDict [(''samples'', JList []), (''dataUsed'', JInt 0)]) 200), w)
         else
           (case listdir (files w) files_path of
              Inl e \<Rightarrow> (Inl e, w)
            | Inr names \<Rightarrow>
                (let folders0 = filter (\<lambda>f. isdir (files w) (path_join files_path f)) names;
                     folders = remove_invalid (files w) files_path folders0 0
                 in case run_process ex [DU_LOC st, ''-s'', files_path] w of
                      (Inl e, w1) \<Rightarrow> (Inl e, w1)
                    | (Inr stdout, w1) \<Rightarrow>
                        (case split_ws stdout of
                           [] \<Rightarrow> (Inl IndexError, w1)
                         | blocks # _ \<Rightarrow>
                             (case py_int blocks of
                                Inl e \<Rightarrow> (Inl e, w1)
                              | Inr n \<Rightarrow>
                                  (Inr (JSONResponse
                                          (JDict [(''samples'', JList (map JStr folders)),
                                                  (''dataUsed'', JRound2 (n * 512) (1024 ^ 3))])
                                          200), w1))))))"

definition delete_sample :: "externals \<Rightarrow> settings \<Rightarrow> string \<Rightarrow> world \<Rightarrow> (exn + response) \<times> world" where
  "delete_sample ex st sample w =
     (let files_path = path_join (SLIDE_DIR st) sample
      in if \<not> path_exists (files w) files_path then
           (Inr (JSONResponse (JDict [(''message'', JStr ''Sample not found'')]) 404), w)
         else
           (case run_process ex [RM_LOC st, ''-rf'', files_path] w of
              (Inl e, w1) \<Rightarrow> (Inl e, w1)
            | (Inr result, w1) \<Rightarrow>
                (Inr (JSONResponse (JDict [(''message'', JStr ''Samples deleted'')]) 200), w1)))"

section \<open>Example states\<close>

text \<open>A freshly installed machine: the scratch directory and the import area exist and are
  empty.\<close>

definition fresh_fs :: filesystem where
  "fresh_fs = [(''/'', Dir), (''/tmp'', Dir), (''/iv-import'', Dir), (''/iv-import/public'', Dir)]"

text \<open>
  A concrete environment for evaluating the handlers: a reader that opens a directory
  exactly when it holds a \<open>.zattrs\<close> file, a JSON codec that knows the empty object,
  and a process runner that removes a tree for \<open>rm -rf\<close> and reports eight blocks for
  anything else.
\<close>

definition demo_connector :: connector where
  "demo_connector =
     \<lparr> metadata = JDict [(''channels'', JInt 3)],
       generate_dzi = (\<lambda>image_id. Inr ''<Image/>''),
       get_combined_image = (\<lambda>image_id level channels gains colors rgb x y. Inr ''raster'') \<rparr>"

definition demo_externals :: externals where
  "demo_externals =
     \<lparr> getcwd = ''/'',
       OmeZarrConnector =
         (\<lambda>fs p. if path_exists fs (path_join p ''.zattrs'') then Inr demo_connector
                 else Inl (ExternalError ''not a zarr group'')),
       json_load = (\<lambda>b. if b = ''{}'' then Inr (JDict []) else Inl JSONDecodeError),
       json_dump = (\<lambda>j. ''{}''),
       cvtColor = Inr,
       imencode = Inr,
       subprocess_run =
         (\<lambda>argv fs.
            if take 2 argv = [''/usr/bin/rm'', ''-rf'']
            then Inr ([], filter (\<lambda>(k, n). k \<noteq> argv ! 2 \<and> \<not> startswith k (argv ! 2 @ ''/'')) fs)
            else Inr (''8'' @ [CHR 0x09] @ argv ! 2 @ [CHR 0x0A], fs)) \<rparr>"

text \<open>A slide store with two dataset directories, of which only \<open>a.zarr\<close> can be opened;
  neither has a \<open>sample.json\<close>.\<close>

definition store_fs :: filesystem where
  "store_fs =
     [(''/'', Dir), (''/iv-store'', Dir), (''/iv-store/public'', Dir),
      (''/iv-store/public/a.zarr'', Dir), (''/iv-store/public/a.zarr/.zattrs'', File ''{}''),
      (''/iv-store/public/b.zarr'', Dir)]"

text \<open>A codec that knows one sidecar text, and a store whose \<open>a.zarr\<close> has that sidecar
  while \<open>c.zarr\<close> has none; both can be opened.\<close>

definition sidecar_externals :: externals where
  "sidecar_externals =
     demo_externals
       \<lparr> json_load := (\<lambda>b. if b = ''[1]'' then Inr (JList [JInt 1]) else Inl JSONDecodeError) \<rparr>"

definition sidecar_fs :: filesystem where
  "sidecar_fs =
     [(''/'', Dir), (''/iv-store'', Dir), (''/iv-store/public'', Dir),
      (''/iv-store/public/a.zarr'', Dir), (''/iv-store/public/a.zarr/.zattrs'', File ''{}''),
      (''/iv-store/public/a.zarr/sample.json'', File ''[1]''),
      (''/iv-store/public/c.zarr'', Dir), (''/iv-store/public/c.zarr/.zattrs'', File ''{}'')]"

section \<open>Observations used in the statements\<close>

text \<open>The response of \<open>samples\<close> when \<open>file_json\<close> is the empty list.\<close>

definition empty_catalog :: "settings \<Rightarrow> response" where
  "empty_catalog st =
     JSONResponse
       (JDict [(''samples'', JList []),
               (''save'', JBool (SAVE st)),
               (''colors'', JList (map JStr (COLORS st)))])
       200"

section \<open>Auxiliary facts\<close>

subsection \<open>Strings and chunk paths\<close>

lemma endswith_suffix: "endswith s suf \<longleftrightarrow> suffix suf s"
proof
  assume "endswith s suf"
  then have "s = take (length s - length suf) s @ suf"
    by (metis append_take_drop_id endswith_def)
  then show "suffix suf s" by (metis suffixI)
next
  assume "suffix suf s"
  then obtain zs where "s = zs @ suf" by (auto simp: suffix_def)
  then show "endswith s suf" by (simp add: endswith_def)
qed

lemma digit_char_props: "d < 10 \<Longrightarrow> is_digit (digit_char d) \<and> digit_val (digit_char d) = d"
proof -
  assume "d < 10"
  then have "d \<in> {0,1,2,3,4,5,6,7,8,9}" by auto
  then show ?thesis
    by (auto simp: digit_char_def is_digit_def digit_val_def)
qed

lemma nat_of_digits_str_nat: "nat_of_digits (str_nat n) = n"
proof (induction n rule: str_nat.induct)
  case (1 n)
  show ?case
  proof (cases "n < 10")
    case True
    then show ?thesis
      by (subst str_nat.simps) (simp add: nat_of_digits_def digit_char_props)
  next
    case False
    then have "nat_of_digits (str_nat (n div 10)) = n div 10" using 1 by simp
    with False show ?thesis
      by (subst str_nat.simps) (simp add: nat_of_digits_def digit_char_props)
  qed
qed

lemma str_nat_inj: "str_nat m = str_nat n \<Longrightarrow> m = n"
  by (metis nat_of_digits_str_nat)

lemma str_nat_digits: "str_nat n \<noteq> [] \<and> list_all is_digit (str_nat n)"
proof (induction n rule: str_nat.induct)
  case (1 n)
  show ?case
  proof (cases "n < 10")
    case True
    then show ?thesis
      by (subst (1 2) str_nat.simps) (simp add: digit_char_props)
  next
    case False
    with 1 show ?thesis
      by (subst (1 2) str_nat.simps) (simp add: digit_char_props)
  qed
qed

lemma str_int_inj: "str_int i = str_int j \<Longrightarrow> i = j"
proof -
  assume eq: "str_int i = str_int j"
  have nd: "\<not> is_digit (CHR ''-'')" by (simp add: is_digit_def)
  have hd: "is_digit (hd (str_nat n))" for n
    using str_nat_digits [of n] by (cases "str_nat n") auto
  show ?thesis
  proof (cases "i < 0"; cases "j < 0")
    assume "i < 0" "j < 0"
    with eq have "nat (- i) = nat (- j)" by (auto simp: str_int_def dest: str_nat_inj)
    with \<open>i < 0\<close> \<open>j < 0\<close> show ?thesis by simp
  next
    assume "i < 0" "\<not> j < 0"
    with eq have "CHR ''-'' # str_nat (nat (- i)) = str_nat (nat j)" by (simp add: str_int_def)
    then have "hd (str_nat (nat j)) = CHR ''-''" by (metis list.sel(1))
    with hd [of "nat j"] nd show ?thesis by simp
  next
    assume "\<not> i < 0" "j < 0"
    with eq have "CHR ''-'' # str_nat (nat (- j)) = str_nat (nat i)" by (simp add: str_int_def)
    then have "hd (str_nat (nat i)) = CHR ''-''" by (metis list.sel(1))
    with hd [of "nat i"] nd show ?thesis by simp
  next
    assume "\<not> i < 0" "\<not> j < 0"
    with eq have "nat i = nat j" by (auto simp: str_int_def dest: str_nat_inj)
    with \<open>\<not> i < 0\<close> \<open>\<not> j < 0\<close> show ?thesis by simp
  qed
qed

lemma str_int_last: "str_int i \<noteq> [] \<and> is_digit (last (str_int i))"
proof -
  have "str_nat n \<noteq> [] \<and> is_digit (last (str_nat n))" for n
    using str_nat_digits [of n] by (cases "str_nat n" rule: rev_cases) auto
  then show ?thesis by (simp add: str_int_def)
qed

lemma lower_char_not_digit: "is_digit c \<Longrightarrow> lower_char c = c"
  unfolding is_digit_def
  by (simp, elim disjE) (simp_all add: lower_char_def)

lemma allowed_file_type_last: "allowed_file_type name \<Longrightarrow> name \<noteq> [] \<and> \<not> is_digit (last name)"
proof -
  assume a: "allowed_file_type name"
  then obtain zs e where e: "lower name = zs @ e" "e \<in> {''.svs'', ''.tiff'', ''.tif''}"
    by (auto simp: allowed_file_type_def endswith_suffix suffix_def)
  then have ne: "name \<noteq> []" by (auto simp: lower_def)
  from e have "last (lower name) \<in> {CHR ''s'', CHR ''f''}" by auto
  moreover have "last (lower name) = lower_char (last name)"
    using ne by (simp add: lower_def last_map)
  ultimately have "\<not> is_digit (last name)"
    using lower_char_not_digit [of "last name"] by (auto simp: is_digit_def)
  with ne show ?thesis by simp
qed

lemma chunk_path_neq_import_path:
  "allowed_file_type name \<Longrightarrow> chunk_path st name i \<noteq> import_path st' name"
proof
  assume a: "allowed_file_type name" and eq: "chunk_path st name i = import_path st' name"
  have "last (chunk_path st name i) = last (str_int i)"
    using str_int_last [of i] by (simp add: chunk_path_def)
  moreover have "last (import_path st' name) = last name"
    using allowed_file_type_last [OF a] by (simp add: import_path_def)
  ultimately show False
    using eq str_int_last [of i] allowed_file_type_last [OF a] by simp
qed

lemma chunk_path_inj: "chunk_path st name i = chunk_path st name j \<Longrightarrow> i = j"
  by (simp add: chunk_path_def str_int_inj)

subsection \<open>File-system operations and the concatenation loop\<close>

lemma open_wb_Inr:
  "open_wb fs p = Inr fs' \<longleftrightarrow>
     isdir fs (dirname p) \<and> \<not> isdir fs p \<and> fs' = AList.update p (File []) fs"
  by (auto simp: open_wb_def isdir_def split: option.splits node.splits)

lemma open_wb_Inl_cases:
  "open_wb fs p = Inl e \<Longrightarrow> e \<in> {FileNotFoundError, NotADirectoryError, IsADirectoryError}"
  by (auto simp: open_wb_def split: option.splits node.splits)

lemma map_of_fwrite:
  "map_of fs p = Some (File d) \<Longrightarrow> map_of (fwrite fs p x) = (map_of fs)(p \<mapsto> File (d @ x))"
  by (simp add: fwrite_def update_conv')

lemma fwrite_open_wb:
  "fwrite (AList.update p (File []) fs) p x = AList.update p (File x) fs"
  by (simp add: fwrite_def update_conv')

lemma read_file_Inr: "read_file fs p = Inr d \<longleftrightarrow> map_of fs p = Some (File d)"
  by (auto simp: read_file_def split: option.splits node.splits)

lemma os_remove_Inr:
  "os_remove fs p = Inr fs' \<longleftrightarrow> (\<exists>d. map_of fs p = Some (File d)) \<and> fs' = AList.delete p fs"
  by (auto simp: os_remove_def split: option.splits node.splits)

lemma concat_chunks_run:
  assumes "allowed_file_type name"
    and "\<forall>i. chunk \<le> i \<and> i < tot \<longrightarrow> (\<exists>d. map_of fs (chunk_path st name i) = Some (File d))"
    and "map_of fs (import_path st name) = Some (File buf)"
  shows "\<exists>fs'. concat_chunks st name tot chunk fs = (None, fs') \<and>
           (\<forall>p. map_of fs' p =
              (if \<exists>i. chunk \<le> i \<and> i < tot \<and> p = chunk_path st name i then None
               else if p = import_path st name
                 then Some (File (buf @ concat (map (\<lambda>i. file_data fs (chunk_path st name i)) [chunk..tot - 1])))
               else map_of fs p))"
  using assms
proof (induction st name tot chunk fs arbitrary: buf rule: concat_chunks.induct)
  case (1 st name tot chunk fs)
  let ?dst = "import_path st name"
  let ?src = "chunk_path st name chunk"
  have neq: "chunk_path st name i \<noteq> ?dst" for i
    using chunk_path_neq_import_path [OF \<open>allowed_file_type name\<close>] by simp
  show ?case
  proof (cases "chunk < tot")
    case False
    then have "[chunk..tot - 1] = []" by simp
    with False "1.prems" show ?thesis
      by (subst concat_chunks.simps) auto
  next
    case True
    with "1.prems" obtain d where d: "map_of fs ?src = Some (File d)" by auto
    then have rd: "read_file fs ?src = Inr d" by (simp add: read_file_Inr)
    define fs1 where "fs1 = fwrite fs ?dst d"
    have m1: "map_of fs1 = (map_of fs)(?dst \<mapsto> File (buf @ d))"
      unfolding fs1_def using "1.prems"(3) by (rule map_of_fwrite)
    have "map_of fs1 ?src = Some (File d)"
      using d neq [of chunk] by (simp add: m1)
    then have rm: "os_remove fs1 ?src = Inr (AList.delete ?src fs1)"
      by (simp add: os_remove_Inr)
    define fs2 where "fs2 = AList.delete ?src fs1"
    have m2: "map_of fs2 = (map_of fs1)(?src := None)"
      by (simp add: fs2_def delete_conv')
    have pres: "\<forall>i. chunk + 1 \<le> i \<and> i < tot \<longrightarrow> (\<exists>d. map_of fs2 (chunk_path st name i) = Some (File d))"
    proof (intro allI impI)
      fix i assume i: "chunk + 1 \<le> i \<and> i < tot"
      then have "chunk_path st name i \<noteq> ?src" using chunk_path_inj [of st name i chunk] by auto
      moreover from i have "chunk \<le> i \<and> i < tot" by simp
      with "1.prems"(2) obtain d' where "map_of fs (chunk_path st name i) = Some (File d')"
        by blast
      ultimately show "\<exists>d. map_of fs2 (chunk_path st name i) = Some (File d)"
        using neq [of i] by (simp add: m2 m1)
    qed
    have dst2: "map_of fs2 ?dst = Some (File (buf @ d))"
      using neq [of chunk] by (simp add: m2 m1)
    from "1.IH" [OF True rd fs1_def rm [folded fs2_def] \<open>allowed_file_type name\<close> pres dst2]
    obtain fs' where run: "concat_chunks st name tot (chunk + 1) fs2 = (None, fs')"
      and res: "\<forall>p. map_of fs' p =
              (if \<exists>i. chunk + 1 \<le> i \<and> i < tot \<and> p = chunk_path st name i then None
               else if p = ?dst
                 then Some (File ((buf @ d) @ concat (map (\<lambda>i. file_data fs2 (chunk_path st name i)) [chunk + 1..tot - 1])))
               else map_of fs2 p)"
      by blast
    have same: "map (\<lambda>i. file_data fs2 (chunk_path st name i)) [chunk + 1..tot - 1]
              = map (\<lambda>i. file_data fs (chunk_path st name i)) [chunk + 1..tot - 1]"
    proof (rule map_cong [OF refl])
      fix i assume "i \<in> set [chunk + 1..tot - 1]"
      then have "chunk_path st name i \<noteq> ?src" using chunk_path_inj [of st name i chunk] by auto
      then show "file_data fs2 (chunk_path st name i) = file_data fs (chunk_path st name i)"
        using neq [of i] by (simp add: file_data_def m2 m1)
    qed
    have up: "[chunk..tot - 1] = chunk # [chunk + 1..tot - 1]"
      using True by (simp add: upto_rec1)
    have fd: "file_data fs ?src = d" using d by (simp add: file_data_def)
    have whole: "concat_chunks st name tot chunk fs = (None, fs')"
      using True rd rm run by (subst concat_chunks.simps) (simp add: fs1_def [symmetric] fs2_def [symmetric])
    have "map_of fs' p =
              (if \<exists>i. chunk \<le> i \<and> i < tot \<and> p = chunk_path st name i then None
               else if p = ?dst
                 then Some (File (buf @ concat (map (\<lambda>i. file_data fs (chunk_path st name i)) [chunk..tot - 1])))
               else map_of fs p)" for p
    proof -
      define R where "R lo \<longleftrightarrow> (\<exists>i. lo \<le> i \<and> i < tot \<and> p = chunk_path st name i)" for lo
      have resp: "map_of fs' p =
              (if R (chunk + 1) then None
               else if p = ?dst
                 then Some (File ((buf @ d) @ concat (map (\<lambda>i. file_data fs (chunk_path st name i)) [chunk + 1..tot - 1])))
               else map_of fs2 p)"
        using res [rule_format, of p] by (simp only: R_def same)
      have Rstep: "R chunk \<longleftrightarrow> p = ?src \<or> R (chunk + 1)"
      proof
        assume "R chunk"
        then obtain i where i: "chunk \<le> i" "i < tot" "p = chunk_path st name i"
          by (auto simp: R_def)
        show "p = ?src \<or> R (chunk + 1)"
        proof (cases "i = chunk")
          case True with i show ?thesis by simp
        next
          case False
          with i have "chunk + 1 \<le> i" by simp
          with i show ?thesis by (auto simp: R_def)
        qed
      next
        assume "p = ?src \<or> R (chunk + 1)"
        then show "R chunk"
        proof
          assume "p = ?src" with \<open>chunk < tot\<close> show ?thesis by (auto simp: R_def)
        next
          assume "R (chunk + 1)"
          then obtain i where "chunk + 1 \<le> i" "i < tot" "p = chunk_path st name i"
            by (auto simp: R_def)
          then have "chunk \<le> i \<and> i < tot \<and> p = chunk_path st name i" by simp
          then show ?thesis unfolding R_def by blast
        qed
      qed
      have notdst: "R lo \<Longrightarrow> p \<noteq> ?dst" for lo
        using neq by (auto simp: R_def)
      have goal: "map_of fs' p =
              (if R chunk then None
               else if p = ?dst
                 then Some (File (buf @ concat (map (\<lambda>i. file_data fs (chunk_path st name i)) [chunk..tot - 1])))
               else map_of fs p)"
      proof (cases "p = ?src")
        case True
        then have "R chunk" by (simp add: Rstep)
        moreover have "map_of fs' p = None"
          using resp True neq [of chunk] by (simp add: m2)
        ultimately show ?thesis by simp
      next
        case False
        show ?thesis
        proof (cases "R (chunk + 1)")
          case True
          then show ?thesis using resp by (simp add: Rstep)
        next
          case nR: False
          with False have "\<not> R chunk" by (simp add: Rstep)
          then show ?thesis
            using resp nR False by (simp add: up fd m2 m1)
        qed
      qed
      then show ?thesis by (simp only: R_def)
    qed
    with whole show ?thesis by blast
  qed
qed

lemma map_of_fwrite_other: "q \<noteq> p \<Longrightarrow> map_of (fwrite fs p x) q = map_of fs q"
  by (simp add: fwrite_def update_conv' split: option.splits node.splits)

lemma mkdir_map:
  "mkdir fs p = (r, fs') \<Longrightarrow>
     map_of fs' q = map_of fs q \<or> (map_of fs q = None \<and> map_of fs' q = Some Dir)"
  by (auto simp: mkdir_def path_exists_def update_conv' split: if_splits option.splits node.splits)

lemma mkdir_errors:
  "mkdir fs p = (Some e, fs') \<Longrightarrow> e \<in> {FileExistsError, FileNotFoundError, NotADirectoryError}"
  by (auto simp: mkdir_def split: if_splits option.splits node.splits)

lemma makedirs_map:
  "makedirs fs p = (r, fs') \<Longrightarrow>
     map_of fs' q = map_of fs q \<or> (map_of fs q = None \<and> map_of fs' q = Some Dir)"
proof (induction fs p arbitrary: r fs' rule: makedirs.induct)
  case (1 fs name)
  show ?case
  proof (cases "fst (split2 name) \<noteq> [] \<and> snd (split2 name) \<noteq> [] \<and> \<not> path_exists fs (fst (split2 name))")
    case False
    with "1.prems" have "mkdir fs name = (r, fs')"
      by (subst (asm) makedirs.simps) auto
    then show ?thesis by (rule mkdir_map)
  next
    case True
    obtain r1 fs1 where rec: "makedirs fs (fst (split2 name)) = (r1, fs1)"
      by (cases "makedirs fs (fst (split2 name))")
    have step1: "map_of fs1 q = map_of fs q \<or> (map_of fs q = None \<and> map_of fs1 q = Some Dir)"
      using "1.IH" [OF _ rec] True by simp
    from "1.prems" True rec
    have "(r, fs') = (r1, fs1) \<or> (r, fs') = (None, fs1) \<or> mkdir fs1 name = (r, fs')"
      by (subst (asm) makedirs.simps) (auto split: option.splits if_splits)
    then show ?thesis
    proof (elim disjE)
      assume "mkdir fs1 name = (r, fs')"
      from mkdir_map [OF this, of q] step1 show ?thesis by auto
    qed (use step1 in auto)
  qed
qed

lemma makedirs_errors:
  "makedirs fs p = (Some e, fs') \<Longrightarrow> e \<in> {FileExistsError, FileNotFoundError, NotADirectoryError}"
proof (induction fs p arbitrary: e fs' rule: makedirs.induct)
  case (1 fs name)
  show ?case
  proof (cases "fst (split2 name) \<noteq> [] \<and> snd (split2 name) \<noteq> [] \<and> \<not> path_exists fs (fst (split2 name))")
    case False
    with "1.prems" have "mkdir fs name = (Some e, fs')"
      by (subst (asm) makedirs.simps) auto
    then show ?thesis by (rule mkdir_errors)
  next
    case True
    obtain r1 fs1 where rec: "makedirs fs (fst (split2 name)) = (r1, fs1)"
      by (cases "makedirs fs (fst (split2 name))")
    from "1.prems" True rec
    have "(r1 = Some e \<and> fs' = fs1) \<or> mkdir fs1 name = (Some e, fs')"
      by (subst (asm) makedirs.simps) (auto split: option.splits if_splits)
    then show ?thesis
    proof
      assume "r1 = Some e \<and> fs' = fs1"
      with rec have "makedirs fs (fst (split2 name)) = (Some e, fs')" by simp
      from "1.IH" [OF _ this] True show ?thesis by simp
    next
      assume "mkdir fs1 name = (Some e, fs')"
      then show ?thesis by (rule mkdir_errors)
    qed
  qed
qed

lemma concat_chunks_errors:
  "concat_chunks st name tot chunk fs = (Some e, fs') \<Longrightarrow> e \<in> {FileNotFoundError, IsADirectoryError}"
proof (induction st name tot chunk fs rule: concat_chunks.induct)
  case (1 st name tot chunk fs)
  from "1.prems" have lt: "chunk < tot"
    by (subst (asm) concat_chunks.simps) (auto split: if_splits)
  show ?case
  proof (cases "read_file fs (chunk_path st name chunk)")
    case (Inl e')
    with lt "1.prems" have "e' = e" by (subst (asm) concat_chunks.simps) simp
    with Inl show ?thesis by (auto simp: read_file_def split: option.splits node.splits)
  next
    case (Inr d)
    define fs1 where "fs1 = fwrite fs (import_path st name) d"
    show ?thesis
    proof (cases "os_remove fs1 (chunk_path st name chunk)")
      case (Inl e')
      with lt Inr "1.prems" have "e' = e"
        by (subst (asm) concat_chunks.simps) (simp add: fs1_def)
      with Inl show ?thesis by (auto simp: os_remove_def split: option.splits node.splits)
    next
      case rm: (Inr fs2)
      with lt Inr "1.prems" have "concat_chunks st name tot (chunk + 1) fs2 = (Some e, fs')"
        by (subst (asm) concat_chunks.simps) (simp add: fs1_def)
      from "1.IH" [OF lt Inr fs1_def rm this] show ?thesis .
    qed
  qed
qed

lemma concat_chunks_None:
  assumes "allowed_file_type name" and "concat_chunks st name tot chunk fs = (None, fs')"
  shows "\<forall>i. chunk \<le> i \<and> i < tot \<longrightarrow> (\<exists>d. map_of fs (chunk_path st name i) = Some (File d))"
  using assms
proof (induction st name tot chunk fs rule: concat_chunks.induct)
  case (1 st name tot chunk fs)
  show ?case
  proof (cases "chunk < tot")
    case False
    then show ?thesis by auto
  next
    case lt: True
    let ?dst = "import_path st name"
    let ?src = "chunk_path st name chunk"
    from lt "1.prems"(2) obtain d where rd: "read_file fs ?src = Inr d"
      by (subst (asm) concat_chunks.simps) (auto split: sum.splits)
    define fs1 where "fs1 = fwrite fs ?dst d"
    from lt rd "1.prems"(2) obtain fs2 where rm: "os_remove fs1 ?src = Inr fs2"
      by (subst (asm) concat_chunks.simps) (auto simp: fs1_def Let_def split: sum.splits)
    with lt rd "1.prems"(2) have run: "concat_chunks st name tot (chunk + 1) fs2 = (None, fs')"
      by (subst (asm) concat_chunks.simps) (simp add: fs1_def)
    from "1.IH" [OF lt rd fs1_def rm \<open>allowed_file_type name\<close> run]
    have ih: "\<forall>i. chunk + 1 \<le> i \<and> i < tot \<longrightarrow> (\<exists>d. map_of fs2 (chunk_path st name i) = Some (File d))" .
    have fs2: "fs2 = AList.delete ?src fs1" using rm by (simp add: os_remove_Inr)
    show ?thesis
    proof (intro allI impI)
      fix i assume i: "chunk \<le> i \<and> i < tot"
      show "\<exists>d. map_of fs (chunk_path st name i) = Some (File d)"
      proof (cases "i = chunk")
        case True
        with rd show ?thesis by (simp add: read_file_Inr)
      next
        case False
        with i have "chunk + 1 \<le> i \<and> i < tot" by simp
        with ih obtain d' where d': "map_of fs2 (chunk_path st name i) = Some (File d')" by blast
        have "chunk_path st name i \<noteq> ?src" using False chunk_path_inj [of st name i chunk] by auto
        moreover have "chunk_path st name i \<noteq> ?dst"
          by (rule chunk_path_neq_import_path [OF \<open>allowed_file_type name\<close>])
        ultimately have "map_of fs2 (chunk_path st name i) = map_of fs (chunk_path st name i)"
          by (simp add: fs2 fs1_def map_of_fwrite_other delete_conv')
        with d' show ?thesis by simp
      qed
    qed
  qed
qed

subsection \<open>The upload handler\<close>

lemma isdir_update_File: "isdir (AList.update p (File x) fs) q \<longleftrightarrow> q \<noteq> p \<and> isdir fs q"
  by (auto simp: isdir_def update_conv')

lemma upload_file_rejected:
  "\<not> allowed_file_type name \<Longrightarrow>
     upload_file st file name k n fs =
       (Inl (HTTPException 400 ''Invalid file type. Only .svs, .tiff, and .tif files are allowed.''), fs)"
  by (simp add: upload_file_def allowed_file_type_def)

lemma upload_file_allowed:
  "allowed_file_type name \<Longrightarrow>
     upload_file st file name k n fs =
       (case open_wb fs (chunk_path st name k) of
          Inl e \<Rightarrow> (Inl e, fs)
        | Inr fs1 \<Rightarrow>
            if k + 1 = n then complete_upload st name n (fwrite fs1 (chunk_path st name k) file)
            else (Inr (JSONResponse (JDict [(''message'', JStr ''Chunk Uploaded'')]) 200),
                  fwrite fs1 (chunk_path st name k) file))"
  by (auto simp: upload_file_def allowed_file_type_def chunk_path_def Let_def split: sum.splits)

lemma upload_file_written:
  assumes "allowed_file_type name" "isdir fs (dirname (chunk_path st name k))"
    "\<not> isdir fs (chunk_path st name k)"
  shows "upload_file st file name k n fs =
           (if k + 1 = n then complete_upload st name n (AList.update (chunk_path st name k) (File file) fs)
            else (Inr (JSONResponse (JDict [(''message'', JStr ''Chunk Uploaded'')]) 200),
                  AList.update (chunk_path st name k) (File file) fs))"
proof -
  have "open_wb fs (chunk_path st name k) = Inr (AList.update (chunk_path st name k) (File []) fs)"
    using assms by (simp add: open_wb_Inr)
  then show ?thesis
    using assms(1) by (simp add: upload_file_allowed fwrite_open_wb)
qed

lemma upload_file_Inr:
  assumes "upload_file st file name k n fs = (Inr r, fs')"
  shows "allowed_file_type name \<and> isdir fs (dirname (chunk_path st name k))
           \<and> \<not> isdir fs (chunk_path st name k)"
proof -
  have a: "allowed_file_type name"
    using assms by (cases "allowed_file_type name") (auto simp: upload_file_rejected)
  with assms obtain fs1 where "open_wb fs (chunk_path st name k) = Inr fs1"
    by (auto simp: upload_file_allowed split: sum.splits)
  with a show ?thesis by (simp add: open_wb_Inr)
qed

lemma complete_upload_Inr:
  assumes a: "allowed_file_type name"
    and run: "complete_upload st name n fs = (Inr r, fs')"
  shows "r = JSONResponse (JDict [(''message'', JStr ''File Uploaded'')]) 200"
    and "\<forall>i. 0 \<le> i \<and> i < n \<longrightarrow> (\<exists>d. map_of fs (chunk_path st name i) = Some (File d))"
    and "map_of fs' (import_path st name) =
           Some (File (concat (map (\<lambda>i. file_data fs (chunk_path st name i)) [0..n - 1])))"
    and "\<forall>i. 0 \<le> i \<and> i < n \<longrightarrow> map_of fs' (chunk_path st name i) = None"
proof -
  let ?pub = "IMPORT_DIR st @ ''/public''"
  let ?dst = "import_path st name"
  obtain r1 fsA where mk: "(if \<not> path_exists fs ?pub then makedirs fs ?pub else (None, fs)) = (r1, fsA)"
    by (cases "if \<not> path_exists fs ?pub then makedirs fs ?pub else (None, fs)")
  from run mk have r1: "r1 = None"
    by (cases r1) (auto simp: complete_upload_def)
  from run mk r1 obtain fsB where op: "open_wb fsA ?dst = Inr fsB"
    by (auto simp: complete_upload_def split: sum.splits)
  from run mk r1 op have cc: "concat_chunks st name n 0 fsB = (None, fs')"
    and r: "r = JSONResponse (JDict [(''message'', JStr ''File Uploaded'')]) 200"
    by (auto simp: complete_upload_def split: option.splits prod.splits)
  show "r = JSONResponse (JDict [(''message'', JStr ''File Uploaded'')]) 200" by (rule r)
  have fsB: "map_of fsB = (map_of fsA)(?dst \<mapsto> File [])"
    using op by (simp add: open_wb_Inr update_conv')
  have stepA: "map_of fsA q = map_of fs q \<or> (map_of fs q = None \<and> map_of fsA q = Some Dir)" for q
  proof (cases "path_exists fs ?pub")
    case True with mk show ?thesis by simp
  next
    case False
    with mk have "makedirs fs ?pub = (r1, fsA)" by simp
    then show ?thesis by (rule makedirs_map)
  qed
  have neq: "chunk_path st name i \<noteq> ?dst" for i
    by (rule chunk_path_neq_import_path [OF a])
  have presB: "\<forall>i. 0 \<le> i \<and> i < n \<longrightarrow> (\<exists>d. map_of fsB (chunk_path st name i) = Some (File d))"
    by (rule concat_chunks_None [OF a cc])
  have same: "map_of fsB (chunk_path st name i) = map_of fs (chunk_path st name i)"
    if "0 \<le> i \<and> i < n" for i
  proof -
    from presB that obtain d where "map_of fsB (chunk_path st name i) = Some (File d)" by blast
    then have "map_of fsA (chunk_path st name i) = Some (File d)"
      using neq [of i] by (simp add: fsB)
    with stepA [of "chunk_path st name i"] show ?thesis
      using neq [of i] by (auto simp: fsB)
  qed
  show pres: "\<forall>i. 0 \<le> i \<and> i < n \<longrightarrow> (\<exists>d. map_of fs (chunk_path st name i) = Some (File d))"
    using presB same by auto
  have dstB: "map_of fsB ?dst = Some (File [])" by (simp add: fsB)
  from concat_chunks_run [OF a presB dstB]
  have res: "\<forall>p. map_of fs' p =
              (if \<exists>i. 0 \<le> i \<and> i < n \<and> p = chunk_path st name i then None
               else if p = ?dst
                 then Some (File ([] @ concat (map (\<lambda>i. file_data fsB (chunk_path st name i)) [0..n - 1])))
               else map_of fsB p)"
    using cc by auto
  have eq: "map (\<lambda>i. file_data fsB (chunk_path st name i)) [0..n - 1]
      = map (\<lambda>i. file_data fs (chunk_path st name i)) [0..n - 1]"
  proof (rule map_cong [OF refl])
    fix i assume "i \<in> set [0..n - 1]"
    then have "0 \<le> i \<and> i < n" by auto
    then show "file_data fsB (chunk_path st name i) = file_data fs (chunk_path st name i)"
      by (simp add: file_data_def same)
  qed
  have ndst: "\<not> (\<exists>i. 0 \<le> i \<and> i < n \<and> ?dst = chunk_path st name i)"
    using neq by metis
  from res [rule_format, of ?dst] ndst
  have "map_of fs' ?dst =
          Some (File (concat (map (\<lambda>i. file_data fsB (chunk_path st name i)) [0..n - 1])))"
    by simp
  then show "map_of fs' ?dst =
           Some (File (concat (map (\<lambda>i. file_data fs (chunk_path st name i)) [0..n - 1])))"
    by (simp only: eq)
  show "\<forall>i. 0 \<le> i \<and> i < n \<longrightarrow> map_of fs' (chunk_path st name i) = None"
    using res by auto
qed

lemma complete_upload_present:
  assumes a: "allowed_file_type name"
    and pres: "\<forall>i. 0 \<le> i \<and> i < n \<longrightarrow> (\<exists>d. map_of fs (chunk_path st name i) = Some (File d))"
    and pub: "isdir fs (IMPORT_DIR st @ ''/public'')"
    and par: "isdir fs (dirname (import_path st name))"
    and nd: "\<not> isdir fs (import_path st name)"
  shows "\<exists>fs'. complete_upload st name n fs =
           (Inr (JSONResponse (JDict [(''message'', JStr ''File Uploaded'')]) 200), fs')"
proof -
  let ?dst = "import_path st name"
  define fsB where "fsB = AList.update ?dst (File []) fs"
  have op: "open_wb fs ?dst = Inr fsB"
    using par nd by (simp add: open_wb_Inr fsB_def)
  have neq: "chunk_path st name i \<noteq> ?dst" for i
    by (rule chunk_path_neq_import_path [OF a])
  have presB: "\<forall>i. 0 \<le> i \<and> i < n \<longrightarrow> (\<exists>d. map_of fsB (chunk_path st name i) = Some (File d))"
    using pres neq by (simp add: fsB_def update_conv')
  have dstB: "map_of fsB ?dst = Some (File [])" by (simp add: fsB_def update_conv')
  from concat_chunks_run [OF a presB dstB]
  obtain fs' where "concat_chunks st name n 0 fsB = (None, fs')" by blast
  with op pub show ?thesis
    by (simp add: complete_upload_def path_exists_def isdir_def)
qed


lemma complete_upload_errors:
  "fst (complete_upload st name n fs) = Inl e \<Longrightarrow>
     e \<in> {FileExistsError, FileNotFoundError, NotADirectoryError, IsADirectoryError}"
proof -
  let ?pub = "IMPORT_DIR st @ ''/public''"
  assume e: "fst (complete_upload st name n fs) = Inl e"
  obtain r1 fsA where mk: "(if \<not> path_exists fs ?pub then makedirs fs ?pub else (None, fs)) = (r1, fsA)"
    by (cases "if \<not> path_exists fs ?pub then makedirs fs ?pub else (None, fs)")
  show ?thesis
  proof (cases r1)
    case (Some e1)
    with mk have "makedirs fs ?pub = (Some e1, fsA)" by (auto split: if_splits)
    from makedirs_errors [OF this] e mk Some show ?thesis
      by (auto simp: complete_upload_def)
  next
    case None
    show ?thesis
    proof (cases "open_wb fsA (import_path st name)")
      case (Inl e2)
      from open_wb_Inl_cases [OF this] e mk None Inl show ?thesis
        by (auto simp: complete_upload_def)
    next
      case (Inr fsB)
      obtain r3 fs3 where cc: "concat_chunks st name n 0 fsB = (r3, fs3)"
        by (cases "concat_chunks st name n 0 fsB")
      with e mk None Inr have "r3 = Some e" 
        by (cases r3) (auto simp: complete_upload_def)
      with cc concat_chunks_errors [of st name n 0 fsB e fs3] show ?thesis by auto
    qed
  qed
qed

lemma allowed_file_type_suffix:
  "allowed_file_type name \<longleftrightarrow> (\<exists>ext \<in> {''.svs'', ''.tiff'', ''.tif''}. suffix ext (lower name))"
  by (simp add: allowed_file_type_def endswith_suffix)

lemma upload_file_error_cases:
  assumes "allowed_file_type name" and "fst (upload_file st file name k n fs) = Inl e"
  shows "e \<in> {FileExistsError, FileNotFoundError, NotADirectoryError, IsADirectoryError}"
proof (cases "open_wb fs (chunk_path st name k)")
  case (Inl e')
  with assms have "e' = e" by (simp add: upload_file_allowed)
  with open_wb_Inl_cases [OF Inl] show ?thesis by auto
next
  case (Inr fs1)
  with assms have "k + 1 = n"
    by (auto simp: upload_file_allowed split: if_splits)
  with assms Inr
  have "fst (complete_upload st name n (fwrite fs1 (chunk_path st name k) file)) = Inl e"
    by (simp add: upload_file_allowed)
  then show ?thesis by (rule complete_upload_errors)
qed


lemma upload_file_last_present:
  assumes a: "allowed_file_type name"
    and w: "isdir fs (dirname (chunk_path st name k))" "\<not> isdir fs (chunk_path st name k)"
    and pres: "\<forall>i. 0 \<le> i \<and> i < k \<longrightarrow> (\<exists>d. map_of fs (chunk_path st name i) = Some (File d))"
    and pub: "isdir fs (IMPORT_DIR st @ ''/public'')"
    and par: "isdir fs (dirname (import_path st name))"
    and nd: "\<not> isdir fs (import_path st name)"
  shows "fst (upload_file st file name k (k + 1) fs) =
           Inr (JSONResponse (JDict [(''message'', JStr ''File Uploaded'')]) 200)"
proof -
  let ?ck = "chunk_path st name k"
  let ?fs2 = "AList.update ?ck (File file) fs"
  have up: "upload_file st file name k (k + 1) fs = complete_upload st name (k + 1) ?fs2"
    using a w by (simp add: upload_file_written)
  have pres2: "\<forall>i. 0 \<le> i \<and> i < k + 1 \<longrightarrow> (\<exists>d. map_of ?fs2 (chunk_path st name i) = Some (File d))"
  proof (intro allI impI)
    fix i assume i: "0 \<le> i \<and> i < k + 1"
    show "\<exists>d. map_of ?fs2 (chunk_path st name i) = Some (File d)"
    proof (cases "i = k")
      case True then show ?thesis by (simp add: update_conv')
    next
      case False
      with i have "0 \<le> i \<and> i < k" by simp
      with pres obtain d where "map_of fs (chunk_path st name i) = Some (File d)" by blast
      then show ?thesis by (simp add: update_conv')
    qed
  qed
  have pub2: "isdir ?fs2 (IMPORT_DIR st @ ''/public'')"
    using pub w(2) by (auto simp: isdir_update_File)
  have par2: "isdir ?fs2 (dirname (import_path st name))"
    using par w(2) by (auto simp: isdir_update_File)
  have nd2: "\<not> isdir ?fs2 (import_path st name)"
    using nd by (simp add: isdir_update_File)
  from complete_upload_present [OF a pres2 pub2 par2 nd2] up show ?thesis by auto
qed

lemma chunk_path_distinct: "i \<noteq> j \<Longrightarrow> chunk_path st name i \<noteq> chunk_path st name j"
  using chunk_path_inj by blast

lemma upto_0_2: "[0..(2::int)] = [0, 1, 2]"
  by code_simp

lemma three_chunks_result:
  assumes u0: "upload_file st b0 name 0 3 fs = (Inr r0, fs1)"
    and u1: "upload_file st b1 name 1 3 fs1 = (Inr r1, fs2)"
    and u2: "upload_file st b2 name 2 3 fs2 = (Inr r2, fs3)"
  shows "r2 = JSONResponse (JDict [(''message'', JStr ''File Uploaded'')]) 200
       \<and> map_of fs3 (import_path st name) = Some (File (b0 @ b1 @ b2))
       \<and> map_of fs3 (chunk_path st name 0) = None
       \<and> map_of fs3 (chunk_path st name 1) = None
       \<and> map_of fs3 (chunk_path st name 2) = None"
proof -
  let ?c0 = "chunk_path st name 0" and ?c1 = "chunk_path st name 1" and ?c2 = "chunk_path st name 2"
  note w0 = upload_file_Inr [OF u0] and w1 = upload_file_Inr [OF u1] and w2 = upload_file_Inr [OF u2]
  have a: "allowed_file_type name" using w0 by simp
  have fs1: "fs1 = AList.update ?c0 (File b0) fs"
    using u0 w0 by (simp add: upload_file_written)
  have fs2: "fs2 = AList.update ?c1 (File b1) fs1"
    using u1 w1 by (simp add: upload_file_written)
  define fsx where "fsx = AList.update ?c2 (File b2) fs2"
  have cu: "complete_upload st name 3 fsx = (Inr r2, fs3)"
    using u2 w2 by (simp add: upload_file_written fsx_def)
  have d: "?c0 \<noteq> ?c1" "?c0 \<noteq> ?c2" "?c1 \<noteq> ?c2"
    by (simp_all add: chunk_path_distinct)
  have f0: "file_data fsx ?c0 = b0" and f1: "file_data fsx ?c1 = b1" and f2: "file_data fsx ?c2 = b2"
    using d by (simp_all add: file_data_def fsx_def fs2 fs1 update_conv')
  from complete_upload_Inr(3) [OF a cu]
  have "map_of fs3 (import_path st name) = Some (File (b0 @ b1 @ b2))"
    by (simp add: upto_0_2 f0 f1 f2)
  moreover from complete_upload_Inr(4) [OF a cu]
  have "map_of fs3 ?c0 = None" "map_of fs3 ?c1 = None" "map_of fs3 ?c2 = None"
    by simp_all
  moreover note complete_upload_Inr(1) [OF a cu]
  ultimately show ?thesis by simp
qed

lemma three_chunks_succeed:
  assumes a: "allowed_file_type name"
    and w0: "isdir fs (dirname (chunk_path st name 0))" "\<not> isdir fs (chunk_path st name 0)"
    and w1: "isdir fs (dirname (chunk_path st name 1))" "\<not> isdir fs (chunk_path st name 1)"
    and w2: "isdir fs (dirname (chunk_path st name 2))" "\<not> isdir fs (chunk_path st name 2)"
    and pub: "isdir fs (IMPORT_DIR st @ ''/public'')"
    and par: "isdir fs (dirname (import_path st name))"
    and nd: "\<not> isdir fs (import_path st name)"
  shows "\<exists>r0 fs1 r1 fs2 r2 fs3.
           upload_file st b0 name 0 3 fs = (Inr r0, fs1)
         \<and> upload_file st b1 name 1 3 fs1 = (Inr r1, fs2)
         \<and> upload_file st b2 name 2 3 fs2 = (Inr r2, fs3)"
proof -
  let ?c0 = "chunk_path st name 0" and ?c1 = "chunk_path st name 1" and ?c2 = "chunk_path st name 2"
  define fs1 where "fs1 = AList.update ?c0 (File b0) fs"
  define fs2 where "fs2 = AList.update ?c1 (File b1) fs1"
  have d: "?c0 \<noteq> ?c1" "?c0 \<noteq> ?c2" "?c1 \<noteq> ?c2"
    by (simp_all add: chunk_path_distinct)
  have u0: "upload_file st b0 name 0 3 fs =
              (Inr (JSONResponse (JDict [(''message'', JStr ''Chunk Uploaded'')]) 200), fs1)"
    using a w0 by (simp add: upload_file_written fs1_def)
  have "isdir fs1 (dirname ?c1)" "\<not> isdir fs1 ?c1"
    using w0 w1 by (auto simp: fs1_def isdir_update_File)
  then have u1: "upload_file st b1 name 1 3 fs1 =
              (Inr (JSONResponse (JDict [(''message'', JStr ''Chunk Uploaded'')]) 200), fs2)"
    using a by (simp add: upload_file_written fs2_def)
  have i2: "isdir fs2 (dirname ?c2)" "\<not> isdir fs2 ?c2"
    using w0 w1 w2 by (auto simp: fs2_def fs1_def isdir_update_File)
  have pres: "\<forall>i. 0 \<le> i \<and> i < 2 \<longrightarrow> (\<exists>d. map_of fs2 (chunk_path st name i) = Some (File d))"
  proof (intro allI impI)
    fix i :: int assume "0 \<le> i \<and> i < 2"
    then have "i = 0 \<or> i = 1" by auto
    then show "\<exists>d. map_of fs2 (chunk_path st name i) = Some (File d)"
      using d by (auto simp: fs2_def fs1_def update_conv')
  qed
  have "isdir fs2 (IMPORT_DIR st @ ''/public'')" "isdir fs2 (dirname (import_path st name))"
    "\<not> isdir fs2 (import_path st name)"
    using pub par nd w0 w1 by (auto simp: fs2_def fs1_def isdir_update_File)
  from upload_file_last_present [OF a i2 pres this, of b2]
  have "fst (upload_file st b2 name 2 3 fs2) =
          Inr (JSONResponse (JDict [(''message'', JStr ''File Uploaded'')]) 200)"
    by simp
  then have "upload_file st b2 name 2 3 fs2 =
          (Inr (JSONResponse (JDict [(''message'', JStr ''File Uploaded'')]) 200),
           snd (upload_file st b2 name 2 3 fs2))"
    by (simp add: prod_eq_iff)
  with u0 u1 show ?thesis by blast
qed

lemma upload_file_redelivery:
  assumes "k + 1 \<noteq> n"
  shows "upload_file st b' name k n (snd (upload_file st b name k n fs)) = upload_file st b' name k n fs"
proof (cases "allowed_file_type name")
  case False
  then show ?thesis by (simp add: upload_file_rejected)
next
  case a: True
  let ?p = "chunk_path st name k"
  show ?thesis
  proof (cases "isdir fs (dirname ?p) \<and> \<not> isdir fs ?p")
    case True
    then have "isdir (AList.update ?p (File b) fs) (dirname ?p)"
      "\<not> isdir (AList.update ?p (File b) fs) ?p"
      by (auto simp: isdir_update_File)
    with True a assms show ?thesis
      by (simp add: upload_file_written)
  next
    case False
    then have "\<And>fs1. open_wb fs ?p \<noteq> Inr fs1" by (auto simp: open_wb_Inr)
    then obtain e where "open_wb fs ?p = Inl e" by (cases "open_wb fs ?p") auto
    with a show ?thesis by (simp add: upload_file_allowed)
  qed
qed

lemma redelivered_chunk_in_artifact:
  assumes k: "0 \<le> k" "k + 1 < n"
    and u1: "upload_file st b name k n fs = (Inr r1, fs1)"
    and u2: "upload_file st b' name k n fs1 = (Inr r2, fs2)"
    and u3: "upload_file st bl name (n - 1) n fs2 = (Inr r3, fs3)"
  shows "\<exists>ds. length ds = nat n \<and> ds ! nat k = b' \<and> ds ! nat (n - 1) = bl
            \<and> (\<forall>i. 0 \<le> i \<and> i < n - 1 \<and> i \<noteq> k \<longrightarrow> ds ! nat i = file_data fs (chunk_path st name i))
            \<and> map_of fs3 (import_path st name) = Some (File (concat ds))"
proof -
  let ?ck = "chunk_path st name k" and ?cl = "chunk_path st name (n - 1)"
  note w1 = upload_file_Inr [OF u1] and w2 = upload_file_Inr [OF u2] and w3 = upload_file_Inr [OF u3]
  have a: "allowed_file_type name" using w1 by simp
  have kn: "k + 1 \<noteq> n" using k by simp
  have fs1: "fs1 = AList.update ?ck (File b) fs"
    using u1 w1 kn by (simp add: upload_file_written)
  have fs2: "fs2 = AList.update ?ck (File b') fs1"
    using u2 w2 kn by (simp add: upload_file_written)
  define fsx where "fsx = AList.update ?cl (File bl) fs2"
  have cu: "complete_upload st name n fsx = (Inr r3, fs3)"
    using u3 w3 by (simp add: upload_file_written fsx_def)
  define ds where "ds = map (\<lambda>i. file_data fsx (chunk_path st name i)) [0..n - 1]"
  have len: "length ds = nat n" using k by (simp add: ds_def)
  have nth: "ds ! nat i = file_data fsx (chunk_path st name i)" if "0 \<le> i" "i < n" for i
    using that by (simp add: ds_def nth_upto)
  have "?ck \<noteq> ?cl" using k chunk_path_inj [of st name k "n - 1"] by auto
  then have "ds ! nat k = b'"
    using k by (simp add: nth file_data_def fsx_def fs2 update_conv')
  moreover have "ds ! nat (n - 1) = bl"
    using k by (simp add: nth file_data_def fsx_def update_conv')
  moreover have "ds ! nat i = file_data fs (chunk_path st name i)"
    if "0 \<le> i \<and> i < n - 1 \<and> i \<noteq> k" for i
  proof -
    have "chunk_path st name i \<noteq> ?ck" "chunk_path st name i \<noteq> ?cl"
      using that chunk_path_inj [of st name i k] chunk_path_inj [of st name i "n - 1"] by auto
    then show ?thesis
      using that by (simp add: nth file_data_def fsx_def fs2 fs1 update_conv')
  qed
  moreover have "map_of fs3 (import_path st name) = Some (File (concat ds))"
    using complete_upload_Inr(3) [OF a cu] by (simp add: ds_def)
  ultimately show ?thesis using len by blast
qed

subsection \<open>The catalog\<close>

lemma samples_scan_failed:
  "find_zarr_datasets ex fs (abspath (getcwd ex) (path_join (SLIDE_DIR st) location)) = Inl e \<Longrightarrow>
     samples ex st location fs = empty_catalog st"
  by (simp add: samples_def empty_catalog_def)

lemma find_zarr_datasets_missing:
  "\<not> isdir fs base_dir \<Longrightarrow> \<exists>e. find_zarr_datasets ex fs base_dir = Inl e"
  by (auto simp: find_zarr_datasets_def scandir_def isdir_def split: option.splits node.splits)

lemma scan_entries_open_fails:
  assumes "entry \<in> set entries" "entry_is_dir entry" "endswith (entry_name entry) ''.zarr''"
    and "OmeZarrConnector ex fs (entry_path entry) = Inl e"
  shows "\<exists>e'. scan_entries ex fs entries zarr_datasets = Inl e'"
  using assms(1)
proof (induction entries arbitrary: zarr_datasets)
  case Nil
  then show ?case by simp
next
  case (Cons x xs)
  show ?case
  proof (cases "x = entry")
    case True
    with assms show ?thesis by simp
  next
    case False
    with Cons.prems have "entry \<in> set xs" by simp
    from Cons.IH [OF this] have ih: "\<exists>e'. scan_entries ex fs xs acc = Inl e'" for acc .
    show ?thesis
      using ih by (auto simp: Let_def split: sum.splits)
  qed
qed

lemma scan_entries_sidecar_fails:
  assumes "entry \<in> set entries" "entry_is_dir entry" "endswith (entry_name entry) ''.zarr''"
    and "path_exists fs (path_join (entry_path entry) ''sample.json'')"
    and "(\<exists>e. read_file fs (path_join (entry_path entry) ''sample.json'') = Inl e)
       \<or> (\<exists>f e. read_file fs (path_join (entry_path entry) ''sample.json'') = Inr f
                \<and> json_load ex f = Inl e)"
  shows "\<exists>e'. scan_entries ex fs entries zarr_datasets = Inl e'"
  using assms(1)
proof (induction entries arbitrary: zarr_datasets)
  case Nil
  then show ?case by simp
next
  case (Cons x xs)
  show ?case
  proof (cases "x = entry")
    case True
    with assms(2-5) show ?thesis
      by (cases "OmeZarrConnector ex fs (entry_path entry)") (auto simp: Let_def)
  next
    case False
    with Cons.prems have "entry \<in> set xs" by simp
    from Cons.IH [OF this] have ih: "\<exists>e'. scan_entries ex fs xs acc = Inl e'" for acc .
    show ?thesis
      using ih by (auto simp: Let_def split: sum.splits)
  qed
qed

lemma scan_entries_records:
  "scan_entries ex fs entries zarr_datasets = Inr ds \<Longrightarrow>
     \<exists>new. ds = zarr_datasets @ new
       \<and> list_all2
            (\<lambda>entry d. \<exists>c details.
                OmeZarrConnector ex fs (entry_path entry) = Inr c
              \<and> (if path_exists fs (path_join (entry_path entry) ''sample.json'')
                  then \<exists>f. read_file fs (path_join (entry_path entry) ''sample.json'') = Inr f
                          \<and> json_load ex f = Inr details
                  else details = JDict [])
              \<and> d = JDict [(''name'', JStr (take (length (entry_name entry) - 5) (entry_name entry))),
                           (''details'', details),
                           (''metadata'', metadata c)])
            (filter (\<lambda>e. entry_is_dir e \<and> endswith (entry_name e) ''.zarr'') entries) new"
proof (induction entries arbitrary: zarr_datasets)
  case Nil
  then show ?case by simp
next
  case (Cons x xs)
  let ?sj = "path_join (entry_path x) ''sample.json''"
  let ?R = "\<lambda>entry d. \<exists>c details.
                OmeZarrConnector ex fs (entry_path entry) = Inr c
              \<and> (if path_exists fs (path_join (entry_path entry) ''sample.json'')
                  then \<exists>f. read_file fs (path_join (entry_path entry) ''sample.json'') = Inr f
                          \<and> json_load ex f = Inr details
                  else details = JDict [])
              \<and> d = JDict [(''name'', JStr (take (length (entry_name entry) - 5) (entry_name entry))),
                           (''details'', details),
                           (''metadata'', metadata c)]"
  let ?P = "\<lambda>e. entry_is_dir e \<and> endswith (entry_name e) ''.zarr''"
  show ?case
  proof (cases "?P x")
    case False
    with Cons.prems have "scan_entries ex fs xs zarr_datasets = Inr ds" by auto
    from Cons.IH [OF this] False show ?thesis by auto
  next
    case True
    from Cons.prems True obtain c where c: "OmeZarrConnector ex fs (entry_path x) = Inr c"
      by (cases "OmeZarrConnector ex fs (entry_path x)") auto
    obtain d where rec: "scan_entries ex fs xs (zarr_datasets @ [d]) = Inr ds" and d: "?R x d"
    proof (cases "path_exists fs ?sj")
      case no: False
      let ?d = "JDict [(''name'', JStr (take (length (entry_name x) - 5) (entry_name x))),
                       (''details'', JDict []), (''metadata'', metadata c)]"
      from Cons.prems True c no have "scan_entries ex fs xs (zarr_datasets @ [?d]) = Inr ds"
        by (simp add: Let_def)
      moreover have "?R x ?d" using c no by simp
      ultimately show ?thesis by (rule that)
    next
      case yes: True
      from Cons.prems True c yes obtain f where f: "read_file fs ?sj = Inr f"
        by (cases "read_file fs ?sj") (auto simp: Let_def)
      from Cons.prems True c yes f obtain details where dt: "json_load ex f = Inr details"
        by (cases "json_load ex f") (auto simp: Let_def)
      let ?d = "JDict [(''name'', JStr (take (length (entry_name x) - 5) (entry_name x))),
                       (''details'', details), (''metadata'', metadata c)]"
      from Cons.prems True c yes f dt have "scan_entries ex fs xs (zarr_datasets @ [?d]) = Inr ds"
        by (simp add: Let_def)
      moreover have "?R x ?d" using c yes f dt by simp
      ultimately show ?thesis by (rule that)
    qed
    from Cons.IH [OF rec] obtain new where new: "ds = (zarr_datasets @ [d]) @ new"
      and rel: "list_all2 ?R (filter ?P xs) new"
      by blast
    have "ds = zarr_datasets @ (d # new)" using new by simp
    moreover have "list_all2 ?R (filter ?P (x # xs)) (d # new)"
      using True d rel by simp
    ultimately show ?thesis by blast
  qed
qed

subsection \<open>Tile parameters\<close>

lemma py_int_error: "py_int t = Inl e \<Longrightarrow> e = ValueError"
  by (auto simp: py_int_def Let_def split: if_splits)

lemma map_int_fails:
  "\<exists>t \<in> set ts. py_int t = Inl ValueError \<Longrightarrow> map_int ts = Inl ValueError"
proof (induction ts)
  case Nil
  then show ?case by simp
next
  case (Cons x xs)
  show ?case
  proof (cases "py_int x")
    case (Inl e)
    with py_int_error [OF Inl] show ?thesis by simp
  next
    case (Inr v)
    with Cons.prems have "\<exists>t \<in> set xs. py_int t = Inl ValueError" by auto
    from Cons.IH [OF this] Inr show ?thesis by simp
  qed
qed

lemma map_int_error: "map_int ts = Inl e \<Longrightarrow> e = ValueError"
  by (induction ts arbitrary: e) (auto split: sum.splits dest: py_int_error)

subsection \<open>The sample filter\<close>

text \<open>The loop never drops a folder that has its sidecar: what it gets wrong is keeping
  folders that have none.\<close>

lemma remove_invalid_keeps_valid:
  assumes "path_exists fs (path_join (path_join files_path v) ''sample.json'')"
    and "v \<in> set folders"
  shows "v \<in> set (remove_invalid fs files_path folders i)"
  using assms
proof (induction fs files_path folders i rule: remove_invalid.induct)
  case (1 fs files_path folders i)
  show ?case
  proof (cases "i < length folders")
    case False
    with "1.prems" show ?thesis by (subst remove_invalid.simps) simp
  next
    case lt: True
    define folder where "folder = folders ! i"
    define sample_json_path where "sample_json_path = path_join (path_join files_path folder) ''sample.json''"
    show ?thesis
    proof (cases "path_exists fs sample_json_path")
      case True
      with "1.IH"(2) [OF lt folder_def sample_json_path_def _ "1.prems"(1) "1.prems"(2)] lt show ?thesis
        by (subst remove_invalid.simps) (simp add: Let_def folder_def sample_json_path_def)
    next
      case False
      with "1.prems"(1) have "v \<noteq> folder" by (auto simp: sample_json_path_def)
      with "1.prems" have "v \<in> set (remove1 folder folders)" by simp
      from "1.IH"(1) [OF lt folder_def sample_json_path_def False "1.prems"(1) this] lt False show ?thesis
        by (subst remove_invalid.simps) (simp add: Let_def folder_def sample_json_path_def)
    qed
  qed
qed

section \<open>The claims\<close>

text \<open>
  C1. A session of three chunks whose arrivals 0, 1, 2 are all answered without an
  exception ends with the response \<open>File Uploaded\<close>, with an artifact under
  \<open>IMPORT_DIR/public\<close> that holds the three payloads in index order, and with none of
  the three scratch files left. The three arrivals are answered without an exception
  whenever the scratch directory and the import area exist and none of the paths
  written is a directory.
\<close>

theorem upload_three_chunks_in_order:
  "(upload_file st b0 name 0 3 fs = (Inr r0, fs1)
      \<and> upload_file st b1 name 1 3 fs1 = (Inr r1, fs2)
      \<and> upload_file st b2 name 2 3 fs2 = (Inr r2, fs3)
    \<longrightarrow> r2 = JSONResponse (JDict [(''message'', JStr ''File Uploaded'')]) 200
       \<and> map_of fs3 (import_path st name) = Some (File (b0 @ b1 @ b2))
       \<and> map_of fs3 (chunk_path st name 0) = None
       \<and> map_of fs3 (chunk_path st name 1) = None
       \<and> map_of fs3 (chunk_path st name 2) = None)
   \<and> (allowed_file_type name
      \<and> isdir fs (dirname (chunk_path st name 0)) \<and> \<not> isdir fs (chunk_path st name 0)
      \<and> isdir fs (dirname (chunk_path st name 1)) \<and> \<not> isdir fs (chunk_path st name 1)
      \<and> isdir fs (dirname (chunk_path st name 2)) \<and> \<not> isdir fs (chunk_path st name 2)
      \<and> isdir fs (IMPORT_DIR st @ ''/public'')
      \<and> isdir fs (dirname (import_path st name))
      \<and> \<not> isdir fs (import_path st name)
    \<longrightarrow> (\<exists>q0 s1 q1 s2 q2 s3.
           upload_file st b0 name 0 3 fs = (Inr q0, s1)
         \<and> upload_file st b1 name 1 3 s1 = (Inr q1, s2)
         \<and> upload_file st b2 name 2 3 s2 = (Inr q2, s3)))"
  using three_chunks_result [of st b0 name fs r0 fs1 b1 r1 fs2 b2 r2 fs3]
    three_chunks_succeed [of name fs st b0 b1 b2]
  by blast

theorem upload_three_chunks_in_order_witness:
  "upload_file default_settings ''AB'' ''slide.svs'' 0 3 fresh_fs =
     (Inr (JSONResponse (JDict [(''message'', JStr ''Chunk Uploaded'')]) 200),
      fresh_fs @ [(''/tmp/slide.svs_0'', File ''AB'')])
   \<and> upload_file default_settings ''CD'' ''slide.svs'' 1 3 (fresh_fs @ [(''/tmp/slide.svs_0'', File ''AB'')]) =
     (Inr (JSONResponse (JDict [(''message'', JStr ''Chunk Uploaded'')]) 200),
      fresh_fs @ [(''/tmp/slide.svs_0'', File ''AB''), (''/tmp/slide.svs_1'', File ''CD'')])
   \<and> upload_file default_settings ''EF'' ''slide.svs'' 2 3
         (fresh_fs @ [(''/tmp/slide.svs_0'', File ''AB''), (''/tmp/slide.svs_1'', File ''CD'')]) =
     (Inr (JSONResponse (JDict [(''message'', JStr ''File Uploaded'')]) 200),
      fresh_fs @ [(''/iv-import/public/slide.svs'', File ''ABCDEF'')])
   \<and> map_of (fresh_fs @ [(''/iv-import/public/slide.svs'', File ''ABCDEF'')])
         (import_path default_settings ''slide.svs'') = Some (File (''AB'' @ ''CD'' @ ''EF''))
   \<and> map_of (fresh_fs @ [(''/iv-import/public/slide.svs'', File ''ABCDEF'')])
         (chunk_path default_settings ''slide.svs'' 0) = None
   \<and> map_of (fresh_fs @ [(''/iv-import/public/slide.svs'', File ''ABCDEF'')])
         (chunk_path default_settings ''slide.svs'' 1) = None
   \<and> map_of (fresh_fs @ [(''/iv-import/public/slide.svs'', File ''ABCDEF'')])
         (chunk_path default_settings ''slide.svs'' 2) = None
   \<and> allowed_file_type ''slide.svs''
   \<and> isdir fresh_fs (dirname (chunk_path default_settings ''slide.svs'' 0))
   \<and> \<not> isdir fresh_fs (chunk_path default_settings ''slide.svs'' 0)
   \<and> isdir fresh_fs (IMPORT_DIR default_settings @ ''/public'')
   \<and> isdir fresh_fs (dirname (import_path default_settings ''slide.svs''))
   \<and> \<not> isdir fresh_fs (import_path default_settings ''slide.svs'')"
proof -
  have u0: "upload_file default_settings ''AB'' ''slide.svs'' 0 3 fresh_fs =
     (Inr (JSONResponse (JDict [(''message'', JStr ''Chunk Uploaded'')]) 200),
      fresh_fs @ [(''/tmp/slide.svs_0'', File ''AB'')])"
    by code_simp
  have u1: "upload_file default_settings ''CD'' ''slide.svs'' 1 3 (fresh_fs @ [(''/tmp/slide.svs_0'', File ''AB'')]) =
     (Inr (JSONResponse (JDict [(''message'', JStr ''Chunk Uploaded'')]) 200),
      fresh_fs @ [(''/tmp/slide.svs_0'', File ''AB''), (''/tmp/slide.svs_1'', File ''CD'')])"
    by code_simp
  have u2: "upload_file default_settings ''EF'' ''slide.svs'' 2 3
         (fresh_fs @ [(''/tmp/slide.svs_0'', File ''AB''), (''/tmp/slide.svs_1'', File ''CD'')]) =
     (Inr (JSONResponse (JDict [(''message'', JStr ''File Uploaded'')]) 200),
      fresh_fs @ [(''/iv-import/public/slide.svs'', File ''ABCDEF'')])"
    by code_simp
  have env: "allowed_file_type ''slide.svs''
   \<and> isdir fresh_fs (dirname (chunk_path default_settings ''slide.svs'' 0))
   \<and> \<not> isdir fresh_fs (chunk_path default_settings ''slide.svs'' 0)
   \<and> isdir fresh_fs (IMPORT_DIR default_settings @ ''/public'')
   \<and> isdir fresh_fs (dirname (import_path default_settings ''slide.svs''))
   \<and> \<not> isdir fresh_fs (import_path default_settings ''slide.svs'')"
    by code_simp
  from upload_three_chunks_in_order [THEN conjunct1, rule_format, OF conjI [OF u0 conjI [OF u1 u2]]]
    u0 u1 u2 env
  show ?thesis by simp
qed

text \<open>
  C2, as stated, fails: in the store below \<open>a.zarr\<close> opens and \<open>b.zarr\<close> does not, and
  the catalog is empty, although \<open>a.zarr\<close> is listed as soon as \<open>b.zarr\<close> is gone.
\<close>

theorem samples_sibling_lost_counterexample:
  "scandir store_fs ''/iv-store/public'' =
     Inr [\<lparr>entry_name = ''a.zarr'', entry_path = ''/iv-store/public/a.zarr'', entry_is_dir = True\<rparr>,
          \<lparr>entry_name = ''b.zarr'', entry_path = ''/iv-store/public/b.zarr'', entry_is_dir = True\<rparr>]
   \<and> OmeZarrConnector demo_externals store_fs ''/iv-store/public/a.zarr'' = Inr demo_connector
   \<and> OmeZarrConnector demo_externals store_fs ''/iv-store/public/b.zarr'' =
        Inl (ExternalError ''not a zarr group'')
   \<and> samples demo_externals default_settings ''public'' store_fs =
        JSONResponse
          (JDict [(''samples'', JList []), (''save'', JBool False),
                  (''colors'', JList (map JStr (COLORS default_settings)))])
          200
   \<and> samples demo_externals default_settings ''public'' (take 5 store_fs) =
        JSONResponse
          (JDict [(''samples'',
                   JList [JDict [(''name'', JStr ''a''), (''details'', JDict []),
                                 (''metadata'', JDict [(''channels'', JInt 3)])]]),
                  (''save'', JBool False),
                  (''colors'', JList (map JStr (COLORS default_settings)))])
          200"
proof (intro conjI)
  show "OmeZarrConnector demo_externals store_fs ''/iv-store/public/a.zarr'' = Inr demo_connector"
    by (simp add: demo_externals_def store_fs_def path_exists_def path_join_def startswith_def
        endswith_def)
  show "OmeZarrConnector demo_externals store_fs ''/iv-store/public/b.zarr'' =
        Inl (ExternalError ''not a zarr group'')"
    by (simp add: demo_externals_def store_fs_def path_exists_def path_join_def startswith_def
        endswith_def)
qed code_simp+

text \<open>
  C2, amended. \<open>find_zarr_datasets\<close> has no handler around a single dataset; the only
  handler is the one in \<open>samples\<close> around the whole scan. So for every base directory
  that can be scanned: if the open of one dataset directory fails, or its
  \<open>sample.json\<close> exists and cannot be read or parsed, the scan ends in an exception and
  the endpoint answers 200 with an empty samples list, so no sibling is returned.
  Whenever the scan returns, it returns one record for each dataset directory of the
  base directory, in scan order: its name without the suffix, the metadata of its
  reader, and the details loaded from its sidecar, empty when it has none.
\<close>

theorem samples_open_failure_empties_catalog:
  assumes "scandir fs (abspath (getcwd ex) (path_join (SLIDE_DIR st) location)) = Inr entries"
  shows "((\<exists>entry \<in> set entries. entry_is_dir entry \<and> endswith (entry_name entry) ''.zarr''
             \<and> ((\<exists>e. OmeZarrConnector ex fs (entry_path entry) = Inl e)
                \<or> (path_exists fs (path_join (entry_path entry) ''sample.json'')
                   \<and> ((\<exists>e. read_file fs (path_join (entry_path entry) ''sample.json'') = Inl e)
                      \<or> (\<exists>f e. read_file fs (path_join (entry_path entry) ''sample.json'') = Inr f
                               \<and> json_load ex f = Inl e)))))
          \<longrightarrow> (\<exists>e. find_zarr_datasets ex fs (abspath (getcwd ex) (path_join (SLIDE_DIR st) location)) = Inl e)
            \<and> samples ex st location fs = empty_catalog st)
       \<and> (\<forall>ds. find_zarr_datasets ex fs (abspath (getcwd ex) (path_join (SLIDE_DIR st) location)) = Inr ds
          \<longrightarrow> list_all2
                (\<lambda>entry d. \<exists>c details.
                    OmeZarrConnector ex fs (entry_path entry) = Inr c
                  \<and> (if path_exists fs (path_join (entry_path entry) ''sample.json'')
                      then \<exists>f. read_file fs (path_join (entry_path entry) ''sample.json'') = Inr f
                              \<and> json_load ex f = Inr details
                      else details = JDict [])
                  \<and> d = JDict [(''name'', JStr (take (length (entry_name entry) - 5) (entry_name entry))),
                               (''details'', details),
                               (''metadata'', metadata c)])
                (filter (\<lambda>e. entry_is_dir e \<and> endswith (entry_name e) ''.zarr'') entries) ds)"
proof (intro conjI impI allI)
  let ?dir = "abspath (getcwd ex) (path_join (SLIDE_DIR st) location)"
  assume "\<exists>entry \<in> set entries. entry_is_dir entry \<and> endswith (entry_name entry) ''.zarr''
             \<and> ((\<exists>e. OmeZarrConnector ex fs (entry_path entry) = Inl e)
                \<or> (path_exists fs (path_join (entry_path entry) ''sample.json'')
                   \<and> ((\<exists>e. read_file fs (path_join (entry_path entry) ''sample.json'') = Inl e)
                      \<or> (\<exists>f e. read_file fs (path_join (entry_path entry) ''sample.json'') = Inr f
                               \<and> json_load ex f = Inl e))))"
  then obtain entry where entry: "entry \<in> set entries" "entry_is_dir entry"
      "endswith (entry_name entry) ''.zarr''"
    and why: "(\<exists>e. OmeZarrConnector ex fs (entry_path entry) = Inl e)
                \<or> (path_exists fs (path_join (entry_path entry) ''sample.json'')
                   \<and> ((\<exists>e. read_file fs (path_join (entry_path entry) ''sample.json'') = Inl e)
                      \<or> (\<exists>f e. read_file fs (path_join (entry_path entry) ''sample.json'') = Inr f
                               \<and> json_load ex f = Inl e)))"
    by blast
  from why have "\<exists>e'. scan_entries ex fs entries [] = Inl e'"
  proof
    assume "\<exists>e. OmeZarrConnector ex fs (entry_path entry) = Inl e"
    then obtain e where "OmeZarrConnector ex fs (entry_path entry) = Inl e" ..
    from scan_entries_open_fails [OF entry this] show ?thesis .
  next
    assume "path_exists fs (path_join (entry_path entry) ''sample.json'')
                   \<and> ((\<exists>e. read_file fs (path_join (entry_path entry) ''sample.json'') = Inl e)
                      \<or> (\<exists>f e. read_file fs (path_join (entry_path entry) ''sample.json'') = Inr f
                               \<and> json_load ex f = Inl e))"
    then show ?thesis
      using scan_entries_sidecar_fails [OF entry, of fs ex "[]"] by blast
  qed
  with assms obtain e' where e': "find_zarr_datasets ex fs ?dir = Inl e'"
    by (auto simp: find_zarr_datasets_def)
  then show "\<exists>e. find_zarr_datasets ex fs ?dir = Inl e" by blast
  from e' show "samples ex st location fs = empty_catalog st"
    by (rule samples_scan_failed)
next
  fix ds
  assume "find_zarr_datasets ex fs (abspath (getcwd ex) (path_join (SLIDE_DIR st) location)) = Inr ds"
  with assms have "scan_entries ex fs entries [] = Inr ds"
    by (simp add: find_zarr_datasets_def)
  from scan_entries_records [OF this]
  show "list_all2
                (\<lambda>entry d. \<exists>c details.
                    OmeZarrConnector ex fs (entry_path entry) = Inr c
                  \<and> (if path_exists fs (path_join (entry_path entry) ''sample.json'')
                      then \<exists>f. read_file fs (path_join (entry_path entry) ''sample.json'') = Inr f
                              \<and> json_load ex f = Inr details
                      else details = JDict [])
                  \<and> d = JDict [(''name'', JStr (take (length (entry_name entry) - 5) (entry_name entry))),
                               (''details'', details),
                               (''metadata'', metadata c)])
                (filter (\<lambda>e. entry_is_dir e \<and> endswith (entry_name e) ''.zarr'') entries) ds"
    by simp
qed

theorem samples_open_failure_empties_catalog_witness:
  "scandir store_fs (abspath (getcwd demo_externals) (path_join (SLIDE_DIR default_settings) ''public'')) =
     Inr [\<lparr>entry_name = ''a.zarr'', entry_path = ''/iv-store/public/a.zarr'', entry_is_dir = True\<rparr>,
          \<lparr>entry_name = ''b.zarr'', entry_path = ''/iv-store/public/b.zarr'', entry_is_dir = True\<rparr>]
   \<and> OmeZarrConnector demo_externals store_fs ''/iv-store/public/b.zarr'' =
        Inl (ExternalError ''not a zarr group'')
   \<and> samples demo_externals default_settings ''public'' store_fs = empty_catalog default_settings
   \<and> read_file (AList.update ''/iv-store/public/a.zarr/sample.json'' (File ''{'') sidecar_fs)
        ''/iv-store/public/a.zarr/sample.json'' = Inr ''{''
   \<and> json_load sidecar_externals ''{'' = Inl JSONDecodeError
   \<and> samples sidecar_externals default_settings ''public''
        (AList.update ''/iv-store/public/a.zarr/sample.json'' (File ''{'') sidecar_fs)
       = empty_catalog default_settings
   \<and> find_zarr_datasets sidecar_externals sidecar_fs
        (abspath (getcwd sidecar_externals) (path_join (SLIDE_DIR default_settings) ''public'')) =
       Inr [JDict [(''name'', JStr ''a''), (''details'', JList [JInt 1]),
                   (''metadata'', JDict [(''channels'', JInt 3)])],
            JDict [(''name'', JStr ''c''), (''details'', JDict []),
                   (''metadata'', JDict [(''channels'', JInt 3)])]]
   \<and> list_all2
         (\<lambda>entry d. \<exists>c details.
             OmeZarrConnector sidecar_externals sidecar_fs (entry_path entry) = Inr c
           \<and> (if path_exists sidecar_fs (path_join (entry_path entry) ''sample.json'')
               then \<exists>f. read_file sidecar_fs (path_join (entry_path entry) ''sample.json'') = Inr f
                       \<and> json_load sidecar_externals f = Inr details
               else details = JDict [])
           \<and> d = JDict [(''name'', JStr (take (length (entry_name entry) - 5) (entry_name entry))),
                        (''details'', details),
                        (''metadata'', metadata c)])
         (filter (\<lambda>e. entry_is_dir e \<and> endswith (entry_name e) ''.zarr'')
            [\<lparr>entry_name = ''a.zarr'', entry_path = ''/iv-store/public/a.zarr'', entry_is_dir = True\<rparr>,
             \<lparr>entry_name = ''c.zarr'', entry_path = ''/iv-store/public/c.zarr'', entry_is_dir = True\<rparr>])
         [JDict [(''name'', JStr ''a''), (''details'', JList [JInt 1]),
                 (''metadata'', JDict [(''channels'', JInt 3)])],
          JDict [(''name'', JStr ''c''), (''details'', JDict []),
                 (''metadata'', JDict [(''channels'', JInt 3)])]]"
proof -
  let ?a = "\<lparr>entry_name = ''a.zarr'', entry_path = ''/iv-store/public/a.zarr'', entry_is_dir = True\<rparr>"
  let ?b = "\<lparr>entry_name = ''b.zarr'', entry_path = ''/iv-store/public/b.zarr'', entry_is_dir = True\<rparr>"
  let ?c = "\<lparr>entry_name = ''c.zarr'', entry_path = ''/iv-store/public/c.zarr'', entry_is_dir = True\<rparr>"
  let ?dir = "abspath (getcwd demo_externals) (path_join (SLIDE_DIR default_settings) ''public'')"
  let ?dir2 = "abspath (getcwd sidecar_externals) (path_join (SLIDE_DIR default_settings) ''public'')"
  let ?broken = "AList.update ''/iv-store/public/a.zarr/sample.json'' (File ''{'') sidecar_fs"
  have sc: "scandir store_fs ?dir = Inr [?a, ?b]" by code_simp
  have bopen: "OmeZarrConnector demo_externals store_fs ''/iv-store/public/b.zarr'' =
        Inl (ExternalError ''not a zarr group'')"
    by (simp add: demo_externals_def store_fs_def path_exists_def path_join_def startswith_def
        endswith_def)
  have bad: "\<exists>entry \<in> set [?a, ?b]. entry_is_dir entry \<and> endswith (entry_name entry) ''.zarr''
             \<and> ((\<exists>e. OmeZarrConnector demo_externals store_fs (entry_path entry) = Inl e)
                \<or> (path_exists store_fs (path_join (entry_path entry) ''sample.json'')
                   \<and> ((\<exists>e. read_file store_fs (path_join (entry_path entry) ''sample.json'') = Inl e)
                      \<or> (\<exists>f e. read_file store_fs (path_join (entry_path entry) ''sample.json'') = Inr f
                               \<and> json_load demo_externals f = Inl e))))"
  proof (rule bexI [of _ ?b])
    show "?b \<in> set [?a, ?b]" by simp
    show "entry_is_dir ?b \<and> endswith (entry_name ?b) ''.zarr''
             \<and> ((\<exists>e. OmeZarrConnector demo_externals store_fs (entry_path ?b) = Inl e)
                \<or> (path_exists store_fs (path_join (entry_path ?b) ''sample.json'')
                   \<and> ((\<exists>e. read_file store_fs (path_join (entry_path ?b) ''sample.json'') = Inl e)
                      \<or> (\<exists>f e. read_file store_fs (path_join (entry_path ?b) ''sample.json'') = Inr f
                               \<and> json_load demo_externals f = Inl e))))"
      using bopen by (simp add: endswith_def)
  qed
  from samples_open_failure_empties_catalog [OF sc] bad
  have c1: "samples demo_externals default_settings ''public'' store_fs = empty_catalog default_settings"
    by blast
  have sc2: "scandir ?broken ?dir2 = Inr [?a, ?c]" by code_simp
  have rd: "read_file ?broken ''/iv-store/public/a.zarr/sample.json'' = Inr ''{''" by code_simp
  have jl: "json_load sidecar_externals ''{'' = Inl JSONDecodeError"
    by (simp add: sidecar_externals_def)
  have pe: "path_exists ?broken ''/iv-store/public/a.zarr/sample.json''" by code_simp
  have pj: "path_join (entry_path ?a) ''sample.json'' = ''/iv-store/public/a.zarr/sample.json''"
    by code_simp
  have bad2: "\<exists>entry \<in> set [?a, ?c]. entry_is_dir entry \<and> endswith (entry_name entry) ''.zarr''
             \<and> ((\<exists>e. OmeZarrConnector sidecar_externals ?broken (entry_path entry) = Inl e)
                \<or> (path_exists ?broken (path_join (entry_path entry) ''sample.json'')
                   \<and> ((\<exists>e. read_file ?broken (path_join (entry_path entry) ''sample.json'') = Inl e)
                      \<or> (\<exists>f e. read_file ?broken (path_join (entry_path entry) ''sample.json'') = Inr f
                               \<and> json_load sidecar_externals f = Inl e))))"
  proof (rule bexI [of _ ?a])
    show "?a \<in> set [?a, ?c]" by simp
    have "\<exists>f e. read_file ?broken (path_join (entry_path ?a) ''sample.json'') = Inr f
                               \<and> json_load sidecar_externals f = Inl e"
      unfolding pj using rd jl by blast
    moreover have "path_exists ?broken (path_join (entry_path ?a) ''sample.json'')"
      unfolding pj by (rule pe)
    moreover have "entry_is_dir ?a \<and> endswith (entry_name ?a) ''.zarr''"
      by (simp add: endswith_def)
    ultimately show "entry_is_dir ?a \<and> endswith (entry_name ?a) ''.zarr''
             \<and> ((\<exists>e. OmeZarrConnector sidecar_externals ?broken (entry_path ?a) = Inl e)
                \<or> (path_exists ?broken (path_join (entry_path ?a) ''sample.json'')
                   \<and> ((\<exists>e. read_file ?broken (path_join (entry_path ?a) ''sample.json'') = Inl e)
                      \<or> (\<exists>f e. read_file ?broken (path_join (entry_path ?a) ''sample.json'') = Inr f
                               \<and> json_load sidecar_externals f = Inl e))))"
      by blast
  qed
  from samples_open_failure_empties_catalog [OF sc2] bad2
  have c2: "samples sidecar_externals default_settings ''public'' ?broken = empty_catalog default_settings"
    by blast
  have sc3: "scandir sidecar_fs ?dir2 = Inr [?a, ?c]" by code_simp
  have ok: "find_zarr_datasets sidecar_externals sidecar_fs ?dir2 =
       Inr [JDict [(''name'', JStr ''a''), (''details'', JList [JInt 1]),
                   (''metadata'', JDict [(''channels'', JInt 3)])],
            JDict [(''name'', JStr ''c''), (''details'', JDict []),
                   (''metadata'', JDict [(''channels'', JInt 3)])]]"
    by code_simp
  note c3 = samples_open_failure_empties_catalog [OF sc3, THEN conjunct2, rule_format, OF ok]
  from sc bopen c1 rd jl c2 ok c3 show ?thesis by (intro conjI)
qed




text \<open>
  C4, as stated, fails: \<open>get_tile\<close> parses the channel and gain tokens with \<open>int\<close> and
  catches nothing, so a token such as \<open>x\<close> leaves the handler as a \<open>ValueError\<close>, which the
  client sees as status 500, not as a status of the 4xx class.
\<close>

theorem get_tile_bad_gain_counterexample:
  "py_int ''x'' = Inl ValueError
   \<and> get_tile demo_externals default_settings ''public'' ''0;1'' True ''red;green'' ''100;x'' ''a'' 3 0 0 store_fs
       = Inl ValueError
   \<and> http_status (get_tile demo_externals default_settings ''public'' ''0;1'' True ''red;green'' ''100;x'' ''a'' 3 0 0 store_fs)
       = 500
   \<and> get_tile demo_externals default_settings ''public'' ''0;one'' True ''red;green'' ''100;50'' ''a'' 3 0 0 store_fs
       = Inl ValueError
   \<and> http_status (get_tile demo_externals default_settings ''public'' ''0;one'' True ''red;green'' ''100;50'' ''a'' 3 0 0 store_fs)
       = 500"
  by code_simp

text \<open>
  C4, amended. For every tile request whose channel list or gain list has a token that
  \<open>int\<close> rejects, the handler ends in an exception and never in a tile built from a
  default value; when the dataset can be opened the exception is the \<open>ValueError\<close> of
  \<open>int\<close>, reported with status 500.
\<close>

theorem get_tile_non_numeric_token:
  assumes "\<exists>t \<in> set (split_on CHR '';'' chs) \<union> set (split_on CHR '';'' gains). py_int t = Inl ValueError"
  shows "(\<exists>e. get_tile ex st location chs rgb colors gains file level loc_x loc_y fs = Inl e)
       \<and> (\<forall>c. OmeZarrConnector ex fs
                 (path_join (path_join (SLIDE_DIR st) location) (file @ ''.zarr'')) = Inr c
            \<longrightarrow> get_tile ex st location chs rgb colors gains file level loc_x loc_y fs = Inl ValueError
              \<and> http_status (get_tile ex st location chs rgb colors gains file level loc_x loc_y fs) = 500)"
proof -
  let ?p = "path_join (path_join (SLIDE_DIR st) location) (file @ ''.zarr'')"
  let ?g = "get_tile ex st location chs rgb colors gains file level loc_x loc_y fs"
  have bad: "map_int (split_on CHR '';'' chs) = Inl ValueError
           \<or> map_int (split_on CHR '';'' gains) = Inl ValueError"
    using assms map_int_fails [of "split_on CHR '';'' chs"] map_int_fails [of "split_on CHR '';'' gains"]
    by blast
  have open_ok: "?g = Inl ValueError" if "OmeZarrConnector ex fs ?p = Inr c" for c
  proof (cases "map_int (split_on CHR '';'' chs)")
    case (Inl e)
    with map_int_error [OF Inl] that show ?thesis by (simp add: get_tile_def)
  next
    case (Inr channels)
    with bad have "map_int (split_on CHR '';'' gains) = Inl ValueError" by simp
    with Inr that show ?thesis by (simp add: get_tile_def)
  qed
  have "\<exists>e. ?g = Inl e"
  proof (cases "OmeZarrConnector ex fs ?p")
    case (Inl e)
    then show ?thesis by (simp add: get_tile_def)
  next
    case (Inr c)
    from open_ok [OF this] show ?thesis by blast
  qed
  moreover have "http_status (Inl ValueError) = 500" by (simp add: http_status_def)
  ultimately show ?thesis using open_ok by auto
qed

theorem get_tile_non_numeric_token_witness:
  "(\<exists>t \<in> set (split_on CHR '';'' ''0;1'') \<union> set (split_on CHR '';'' ''100;x''). py_int t = Inl ValueError)
   \<and> get_tile demo_externals default_settings ''public'' ''0;1'' True ''red;green'' ''100;x'' ''a'' 3 0 0 store_fs
       = Inl ValueError
   \<and> http_status (get_tile demo_externals default_settings ''public'' ''0;1'' True ''red;green'' ''100;x'' ''a'' 3 0 0 store_fs)
       = 500"
proof -
  have tok: "\<exists>t \<in> set (split_on CHR '';'' ''0;1'') \<union> set (split_on CHR '';'' ''100;x''). py_int t = Inl ValueError"
  proof (rule bexI [of _ "''x''"])
    show "py_int ''x'' = Inl ValueError" by code_simp
    show "''x'' \<in> set (split_on CHR '';'' ''0;1'') \<union> set (split_on CHR '';'' ''100;x'')" by simp
  qed
  have op: "OmeZarrConnector demo_externals store_fs
              (path_join (path_join (SLIDE_DIR default_settings) ''public'') (''a'' @ ''.zarr'')) = Inr demo_connector"
    by (simp add: demo_externals_def store_fs_def default_settings_def path_exists_def path_join_def
        startswith_def endswith_def)
  from get_tile_non_numeric_token [OF tok, of demo_externals default_settings "''public''" True
      "''red;green''" "''a''" 3 0 0 store_fs] op tok
  show ?thesis by blast
qed

text \<open>
  C5 does not hold of the code: the filter removes entries from the list it iterates
  over, so the entry after a removed one is never examined. With two sample directories
  that both lack \<open>sample.json\<close>, the second one is returned.
\<close>

theorem sample_stats_keeps_invalid_sample:
  "listdir store_fs ''/iv-store/public'' = Inr [''a.zarr'', ''b.zarr'']
   \<and> \<not> path_exists store_fs ''/iv-store/public/a.zarr/sample.json''
   \<and> \<not> path_exists store_fs ''/iv-store/public/b.zarr/sample.json''
   \<and> fst (sample_stats demo_externals default_settings \<lparr>files = store_fs, procs = []\<rparr>) =
        Inr (JSONResponse
               (JDict [(''samples'', JList [JStr ''b.zarr'']),
                       (''dataUsed'', JRound2 4096 1073741824)])
               200)"
  by code_simp

text \<open>
  C6. Delivering chunk \<open>k\<close> a second time before the session completes leaves exactly
  the state and response of the second delivery alone: the earlier scratch write is
  overwritten. When the last-indexed chunk then arrives and is answered without an
  exception, the artifact is the concatenation of one block per index, the block of
  index \<open>k\<close> being the bytes delivered last, the block of the last index its own bytes,
  and every other block the scratch file the session started with.
\<close>

theorem upload_chunk_redelivery_overwrites:
  "(k + 1 \<noteq> n \<longrightarrow>
      upload_file st b' name k n (snd (upload_file st b name k n fs)) = upload_file st b' name k n fs)
   \<and> (0 \<le> k \<and> k + 1 < n
       \<and> upload_file st b name k n fs = (Inr r1, fs1)
       \<and> upload_file st b' name k n fs1 = (Inr r2, fs2)
       \<and> upload_file st bl name (n - 1) n fs2 = (Inr r3, fs3)
      \<longrightarrow> (\<exists>ds. length ds = nat n \<and> ds ! nat k = b' \<and> ds ! nat (n - 1) = bl
            \<and> (\<forall>i. 0 \<le> i \<and> i < n - 1 \<and> i \<noteq> k \<longrightarrow> ds ! nat i = file_data fs (chunk_path st name i))
            \<and> map_of fs3 (import_path st name) = Some (File (concat ds))))"
  using upload_file_redelivery [of k n st b' name b fs]
    redelivered_chunk_in_artifact [of k n st b name fs r1 fs1 b' r2 fs2 bl r3 fs3]
  by blast

theorem upload_chunk_redelivery_overwrites_witness:
  "upload_file default_settings ''XY'' ''slide.svs'' 1 3
      (snd (upload_file default_settings ''CD'' ''slide.svs'' 1 3
              (fresh_fs @ [(''/tmp/slide.svs_0'', File ''AB'')])))
     = upload_file default_settings ''XY'' ''slide.svs'' 1 3
         (fresh_fs @ [(''/tmp/slide.svs_0'', File ''AB'')])
   \<and> upload_file default_settings ''EF'' ''slide.svs'' (3 - 1) 3
         (fresh_fs @ [(''/tmp/slide.svs_0'', File ''AB''), (''/tmp/slide.svs_1'', File ''XY'')]) =
       (Inr (JSONResponse (JDict [(''message'', JStr ''File Uploaded'')]) 200),
        fresh_fs @ [(''/iv-import/public/slide.svs'', File ''ABXYEF'')])
   \<and> (\<exists>ds. length ds = nat 3 \<and> ds ! nat 1 = ''XY'' \<and> ds ! nat (3 - 1) = ''EF''
         \<and> map_of (fresh_fs @ [(''/iv-import/public/slide.svs'', File ''ABXYEF'')])
              (import_path default_settings ''slide.svs'') = Some (File (concat ds)))"
proof -
  let ?st = default_settings
  let ?fs = "fresh_fs @ [(''/tmp/slide.svs_0'', File ''AB'')]"
  have u1: "upload_file ?st ''CD'' ''slide.svs'' 1 3 ?fs =
     (Inr (JSONResponse (JDict [(''message'', JStr ''Chunk Uploaded'')]) 200),
      fresh_fs @ [(''/tmp/slide.svs_0'', File ''AB''), (''/tmp/slide.svs_1'', File ''CD'')])"
    by code_simp
  have u2: "upload_file ?st ''XY'' ''slide.svs'' 1 3
      (fresh_fs @ [(''/tmp/slide.svs_0'', File ''AB''), (''/tmp/slide.svs_1'', File ''CD'')]) =
     (Inr (JSONResponse (JDict [(''message'', JStr ''Chunk Uploaded'')]) 200),
      fresh_fs @ [(''/tmp/slide.svs_0'', File ''AB''), (''/tmp/slide.svs_1'', File ''XY'')])"
    by code_simp
  have u3: "upload_file ?st ''EF'' ''slide.svs'' (3 - 1) 3
         (fresh_fs @ [(''/tmp/slide.svs_0'', File ''AB''), (''/tmp/slide.svs_1'', File ''XY'')]) =
       (Inr (JSONResponse (JDict [(''message'', JStr ''File Uploaded'')]) 200),
        fresh_fs @ [(''/iv-import/public/slide.svs'', File ''ABXYEF'')])"
    by code_simp
  have k: "(0 :: int) \<le> 1 \<and> (1 :: int) + 1 < 3" and kn: "(1 :: int) + 1 \<noteq> 3" by simp_all
  note t = upload_chunk_redelivery_overwrites [where k = 1 and n = 3 and st = ?st and name = "''slide.svs''"
      and b = "''CD''" and b' = "''XY''" and bl = "''EF''" and fs = ?fs]
  from t [THEN conjunct1, rule_format, OF kn]
  have c1: "upload_file ?st ''XY'' ''slide.svs'' 1 3 (snd (upload_file ?st ''CD'' ''slide.svs'' 1 3 ?fs))
     = upload_file ?st ''XY'' ''slide.svs'' 1 3 ?fs" .
  from t [THEN conjunct2, rule_format, OF conjI [OF conjunct1 [OF k] conjI [OF conjunct2 [OF k] conjI [OF u1 conjI [OF u2 u3]]]]]
  have c2: "\<exists>ds. length ds = nat 3 \<and> ds ! nat 1 = ''XY'' \<and> ds ! nat (3 - 1) = ''EF''
         \<and> map_of (fresh_fs @ [(''/iv-import/public/slide.svs'', File ''ABXYEF'')])
              (import_path ?st ''slide.svs'') = Some (File (concat ds))"
    by blast
  from c1 u3 c2 show ?thesis by blast
qed

text \<open>
  C7. A chunk arrival is rejected with the 400 \<open>HTTPException\<close> exactly when the lower-cased
  name ends in none of \<open>.svs\<close>, \<open>.tiff\<close>, \<open>.tif\<close>; a rejected arrival leaves the file
  system as it was, so neither a scratch file nor an artifact is written.
\<close>

theorem upload_rejects_unsupported_type:
  "((\<exists>detail. fst (upload_file st file name k n fs) = Inl (HTTPException 400 detail))
      \<longleftrightarrow> \<not> (\<exists>ext \<in> {''.svs'', ''.tiff'', ''.tif''}. suffix ext (lower name)))
   \<and> (\<not> (\<exists>ext \<in> {''.svs'', ''.tiff'', ''.tif''}. suffix ext (lower name))
        \<longrightarrow> snd (upload_file st file name k n fs) = fs)"
proof (cases "allowed_file_type name")
  case True
  have "fst (upload_file st file name k n fs) \<noteq> Inl (HTTPException 400 detail)" for detail
    using upload_file_error_cases [OF True, of st "file" k n fs "HTTPException 400 detail"] by auto
  with True show ?thesis
    by (simp only: allowed_file_type_suffix [symmetric]) simp
next
  case False
  then show ?thesis
    by (simp only: allowed_file_type_suffix [symmetric]) (simp add: upload_file_rejected)
qed

theorem upload_rejects_unsupported_type_witness:
  "\<not> (\<exists>ext \<in> {''.svs'', ''.tiff'', ''.tif''}. suffix ext (lower ''slide.TXT''))
   \<and> (\<exists>detail. fst (upload_file default_settings ''AB'' ''slide.TXT'' 0 1 fresh_fs) = Inl (HTTPException 400 detail))
   \<and> snd (upload_file default_settings ''AB'' ''slide.TXT'' 0 1 fresh_fs) = fresh_fs
   \<and> (\<exists>ext \<in> {''.svs'', ''.tiff'', ''.tif''}. suffix ext (lower ''slide.TIF''))
   \<and> \<not> (\<exists>detail. fst (upload_file default_settings ''AB'' ''slide.TIF'' 0 1 fresh_fs) = Inl (HTTPException 400 detail))"
proof -
  have no: "\<not> (\<exists>ext \<in> {''.svs'', ''.tiff'', ''.tif''}. suffix ext (lower ''slide.TXT''))"
    by (simp only: allowed_file_type_suffix [symmetric]) code_simp
  have yes: "\<exists>ext \<in> {''.svs'', ''.tiff'', ''.tif''}. suffix ext (lower ''slide.TIF'')"
    by (simp only: allowed_file_type_suffix [symmetric]) code_simp
  show ?thesis
    using no yes
      upload_rejects_unsupported_type [of default_settings "''AB''" "''slide.TXT''" 0 1 fresh_fs]
      upload_rejects_unsupported_type [of default_settings "''AB''" "''slide.TIF''" 0 1 fresh_fs]
    by blast
qed

text \<open>
  C8. The samples endpoint always answers with status 200; when the directory of the
  location is missing, and whenever the scan ends in an exception, the samples list of
  the answer is empty.
\<close>

theorem samples_never_fails:
  "status_code (samples ex st location fs) = 200
   \<and> (\<not> isdir fs (abspath (getcwd ex) (path_join (SLIDE_DIR st) location))
        \<longrightarrow> samples ex st location fs = empty_catalog st)
   \<and> ((\<exists>e. find_zarr_datasets ex fs (abspath (getcwd ex) (path_join (SLIDE_DIR st) location)) = Inl e)
        \<longrightarrow> samples ex st location fs = empty_catalog st)"
  using find_zarr_datasets_missing [of fs "abspath (getcwd ex) (path_join (SLIDE_DIR st) location)" ex]
  by (auto simp: samples_scan_failed) (simp add: samples_def status_code_def)

theorem samples_never_fails_witness:
  "\<not> isdir store_fs (abspath (getcwd demo_externals) (path_join (SLIDE_DIR default_settings) ''nowhere''))
   \<and> samples demo_externals default_settings ''nowhere'' store_fs = empty_catalog default_settings
   \<and> status_code (samples demo_externals default_settings ''nowhere'' store_fs) = 200
   \<and> find_zarr_datasets demo_externals store_fs
        (abspath (getcwd demo_externals) (path_join (SLIDE_DIR default_settings) ''public''))
       = Inl (ExternalError ''not a zarr group'')
   \<and> samples demo_externals default_settings ''public'' store_fs = empty_catalog default_settings"
proof -
  have h1: "\<not> isdir store_fs (abspath (getcwd demo_externals) (path_join (SLIDE_DIR default_settings) ''nowhere''))"
    by code_simp
  have h2: "find_zarr_datasets demo_externals store_fs
        (abspath (getcwd demo_externals) (path_join (SLIDE_DIR default_settings) ''public''))
       = Inl (ExternalError ''not a zarr group'')"
    by code_simp
  from h1 h2
    samples_never_fails [of demo_externals default_settings "''nowhere''" store_fs]
    samples_never_fails [of demo_externals default_settings "''public''" store_fs]
  show ?thesis by blast
qed

text \<open>
  C9. When the path of the sample does not exist, \<open>delete_sample\<close> answers 404 and leaves
  the machine as it was: no file changes and no process is run. The recursive delete is
  run exactly when the path exists.
\<close>

theorem delete_sample_missing:
  "(\<not> path_exists (files w) (path_join (SLIDE_DIR st) sample) \<longrightarrow>
      delete_sample ex st sample w =
        (Inr (JSONResponse (JDict [(''message'', JStr ''Sample not found'')]) 404), w))
   \<and> (path_exists (files w) (path_join (SLIDE_DIR st) sample) \<longrightarrow>
      procs (snd (delete_sample ex st sample w)) =
        procs w @ [[RM_LOC st, ''-rf'', path_join (SLIDE_DIR st) sample]])"
  by (auto simp: delete_sample_def run_process_def Let_def split: sum.splits prod.splits)

theorem delete_sample_missing_witness:
  "\<not> path_exists (files \<lparr>files = store_fs, procs = []\<rparr>) (path_join (SLIDE_DIR default_settings) ''public/c.zarr'')
   \<and> delete_sample demo_externals default_settings ''public/c.zarr'' \<lparr>files = store_fs, procs = []\<rparr> =
        (Inr (JSONResponse (JDict [(''message'', JStr ''Sample not found'')]) 404),
         \<lparr>files = store_fs, procs = []\<rparr>)
   \<and> path_exists (files \<lparr>files = store_fs, procs = []\<rparr>) (path_join (SLIDE_DIR default_settings) ''public/a.zarr'')
   \<and> procs (snd (delete_sample demo_externals default_settings ''public/a.zarr'' \<lparr>files = store_fs, procs = []\<rparr>)) =
        [[''/usr/bin/rm'', ''-rf'', ''/iv-store/public/a.zarr'']]"
proof -
  let ?w = "\<lparr>files = store_fs, procs = []\<rparr>"
  have h1: "\<not> path_exists (files ?w) (path_join (SLIDE_DIR default_settings) ''public/c.zarr'')"
    by code_simp
  have h2: "path_exists (files ?w) (path_join (SLIDE_DIR default_settings) ''public/a.zarr'')"
    by code_simp
  have e: "procs ?w @ [[RM_LOC default_settings, ''-rf'', path_join (SLIDE_DIR default_settings) ''public/a.zarr'']]
      = [[''/usr/bin/rm'', ''-rf'', ''/iv-store/public/a.zarr'']]"
    by code_simp
  from delete_sample_missing [of ?w default_settings "''public/c.zarr''" demo_externals]
    delete_sample_missing [of ?w default_settings "''public/a.zarr''" demo_externals] h1 h2 e
  show ?thesis by (metis (no_types))
qed

text \<open>
  C10. While \<open>SAVE\<close> is off, saving answers 403 with the body \<open>SAVE BLOCKED\<close> for every
  path and every request body, valid JSON or not, and the file system is unchanged.
\<close>

theorem save_blocked_when_disabled:
  "\<not> SAVE st \<Longrightarrow>
     save_slide_settings ex st file body fs = (Inr (PlainTextResponse ''SAVE BLOCKED'' 403), fs)"
  by (simp add: save_slide_settings_def)

theorem save_blocked_when_disabled_witness:
  "\<not> SAVE default_settings
   \<and> json_load demo_externals ''{}'' = Inr (JDict [])
   \<and> save_slide_settings demo_externals default_settings ''public/a.zarr'' ''{}'' store_fs =
        (Inr (PlainTextResponse ''SAVE BLOCKED'' 403), store_fs)
   \<and> json_load demo_externals ''{'' = Inl JSONDecodeError
   \<and> save_slide_settings demo_externals default_settings ''public/a.zarr'' ''{'' store_fs =
        (Inr (PlainTextResponse ''SAVE BLOCKED'' 403), store_fs)"
proof -
  have off: "\<not> SAVE default_settings" by (simp add: default_settings_def)
  have j: "json_load demo_externals ''{}'' = Inr (JDict [])"
    "json_load demo_externals ''{'' = Inl JSONDecodeError"
    by (simp_all add: demo_externals_def)
  from off j save_blocked_when_disabled [OF off, of demo_externals "''public/a.zarr''" "''{}''" store_fs]
    save_blocked_when_disabled [OF off, of demo_externals "''public/a.zarr''" "''{''" store_fs]
  show ?thesis by simp
qed

end
